theory Spec2Isabelle
  imports Complex_Main
begin

section \<open>Data model\<close>

text \<open>
  A JavaScript number is an IEEE 754 double. The coordinates of a landmark are finite
  doubles and are held as the reals they denote. The arithmetic of \<open>detectArmsSpread\<close>,
  whose comparisons a rounding error can decide, is the arithmetic of doubles: every
  operation rounds its exact result to the nearest double, ties to even, with overflow to
  an infinity (section \<open>Numbers\<close>). The arithmetic of \<open>getCenterOffset\<close>, of the layout
  and of the animation is taken over the reals. Timestamps (\<open>Date.now()\<close>) are integers,
  in milliseconds.

  A pose landmark is an object with coordinates \<open>x\<close>, \<open>y\<close> and an optional
  \<open>visibility\<close>. The landmark arrays are typed \<open>any[]\<close> in the source, and the code
  itself tests entries for presence (\<open>if (landmarks[idx])\<close>, \<open>poseLandmarks[0]?.\<close>),
  so an entry of an array is either a landmark or absent (\<open>undefined\<close>/\<open>null\<close>): a
  landmark array is a \<open>landmark option list\<close>, and an argument that may itself be
  \<open>null\<close>/\<open>undefined\<close> is a \<open>landmark option list option\<close>.
\<close>

datatype error = TypeError

record point =
  x :: real
  y :: real

record landmark = point +
  visibility :: "real option"

text \<open>\<open>PoseData\<close> of types.ts: \<open>{x, y, isArmsSpread, score}\<close>.\<close>

record PoseData = point +
  isArmsSpread :: bool
  score :: real

text \<open>\<open>PhotoItem\<close> of types.ts; the field \<open>id\<close> is written \<open>id'\<close>.\<close>

record PhotoItem =
  id' :: string
  url :: string

text \<open>
  \<open>landmarks[idx]\<close>: an index past the end of a JavaScript array reads \<open>undefined\<close>,
  as an absent entry does.
\<close>

definition entryAt :: "landmark option list \<Rightarrow> nat \<Rightarrow> landmark option" where
  "entryAt landmarks idx = (if idx < length landmarks then landmarks ! idx else None)"

section \<open>Numbers\<close>

text \<open>
  The values of a JavaScript number: a finite double, held as the real it denotes, the
  two infinities and NaN. The two zeros are not told apart; no comparison does.
\<close>

datatype number = Finite real | PosInf | NegInf | NaN

text \<open>The nearest integer, a tie going to the even one.\<close>

definition roundTiesToEven :: "real \<Rightarrow> int" where
  "roundTiesToEven r =
     (let n = \<lfloor>r\<rfloor> in
      if r - of_int n < 1/2 then n
      else if 1/2 < r - of_int n then n + 1
      else if even n then n else n + 1)"

text \<open>
  The binary exponent of a non-zero real as a double has it: that of its binade, and
  \<open>-1022\<close> throughout the subnormal range.
\<close>

definition exponent :: "real \<Rightarrow> int" where
  "exponent r = max \<lfloor>log 2 \<bar>r\<bar>\<rfloor> (- 1022)"

text \<open>
  The double that an exact result \<open>r\<close> rounds to (roundTiesToEven of IEEE 754): the
  nearest multiple of the unit in the last place of its binade, 53 significant bits,
  and an infinity once that reaches \<open>2 ^ 1024\<close>. A numeric literal denotes the double
  \<open>toDouble\<close> of its decimal value.
\<close>

definition toDouble :: "real \<Rightarrow> number" where
  "toDouble r =
     (if r = 0 then Finite 0
      else let ulp = 2 powi (exponent r - 52);
               v = of_int (roundTiesToEven (r / ulp)) * ulp
           in if 2 ^ 1024 \<le> v then PosInf
              else if v \<le> - (2 ^ 1024) then NegInf
              else Finite v)"

text \<open>The operators \<open>+\<close>, \<open>-\<close>, \<open>*\<close> and \<open><\<close> on numbers (\<open>a > b\<close> is \<open>b < a\<close>).\<close>

fun numAdd :: "number \<Rightarrow> number \<Rightarrow> number" where
  "numAdd (Finite a) (Finite b) = toDouble (a + b)"
| "numAdd NaN _ = NaN"
| "numAdd _ NaN = NaN"
| "numAdd PosInf NegInf = NaN"
| "numAdd NegInf PosInf = NaN"
| "numAdd PosInf _ = PosInf"
| "numAdd _ PosInf = PosInf"
| "numAdd NegInf _ = NegInf"
| "numAdd _ NegInf = NegInf"

fun numSub :: "number \<Rightarrow> number \<Rightarrow> number" where
  "numSub (Finite a) (Finite b) = toDouble (a - b)"
| "numSub NaN _ = NaN"
| "numSub _ NaN = NaN"
| "numSub PosInf PosInf = NaN"
| "numSub NegInf NegInf = NaN"
| "numSub PosInf _ = PosInf"
| "numSub _ PosInf = NegInf"
| "numSub NegInf _ = NegInf"
| "numSub _ NegInf = PosInf"

fun numMul :: "number \<Rightarrow> number \<Rightarrow> number" where
  "numMul (Finite a) (Finite b) = toDouble (a * b)"
| "numMul NaN _ = NaN"
| "numMul _ NaN = NaN"
| "numMul PosInf (Finite b) = (if b = 0 then NaN else if 0 < b then PosInf else NegInf)"
| "numMul NegInf (Finite b) = (if b = 0 then NaN else if 0 < b then NegInf else PosInf)"
| "numMul (Finite a) PosInf = (if a = 0 then NaN else if 0 < a then PosInf else NegInf)"
| "numMul (Finite a) NegInf = (if a = 0 then NaN else if 0 < a then NegInf else PosInf)"
| "numMul PosInf PosInf = PosInf"
| "numMul NegInf NegInf = PosInf"
| "numMul PosInf NegInf = NegInf"
| "numMul NegInf PosInf = NegInf"

fun numLess :: "number \<Rightarrow> number \<Rightarrow> bool" where
  "numLess (Finite a) (Finite b) = (a < b)"
| "numLess NaN _ = False"
| "numLess _ NaN = False"
| "numLess _ NegInf = False"
| "numLess PosInf _ = False"
| "numLess NegInf _ = True"
| "numLess _ PosInf = True"

text \<open>
  \<open>Math.sqrt\<close>, correctly rounded, and \<open>Math.abs\<close>. ECMAScript leaves the precision of
  \<open>Math.pow\<close> to the implementation; \<open>Math.pow(a, 2)\<close> is taken as the correctly rounded
  square, the product \<open>a * a\<close>, which is what the \<open>pow\<close> of fdlibm returns for the
  exponent 2.
\<close>

fun Math_sqrt :: "number \<Rightarrow> number" where
  "Math_sqrt (Finite a) = (if a < 0 then NaN else toDouble (sqrt a))"
| "Math_sqrt PosInf = PosInf"
| "Math_sqrt NegInf = NaN"
| "Math_sqrt NaN = NaN"

fun Math_abs :: "number \<Rightarrow> number" where
  "Math_abs (Finite a) = Finite \<bar>a\<bar>"
| "Math_abs PosInf = PosInf"
| "Math_abs NegInf = PosInf"
| "Math_abs NaN = NaN"

definition Math_pow2 :: "number \<Rightarrow> number" where
  "Math_pow2 a = numMul a a"

section \<open>Landmark geometry (poseUtils)\<close>

text \<open>The local constants of \<open>detectArmsSpread\<close>, each as the source computes it.\<close>

definition shoulderWidth :: "landmark \<Rightarrow> landmark \<Rightarrow> number" where
  "shoulderWidth leftShoulder rightShoulder =
     Math_sqrt
       (numAdd (Math_pow2 (numSub (Finite (x leftShoulder)) (Finite (x rightShoulder))))
               (Math_pow2 (numSub (Finite (y leftShoulder)) (Finite (y rightShoulder)))))"

definition wristDistanceX :: "landmark \<Rightarrow> landmark \<Rightarrow> number" where
  "wristDistanceX leftWrist rightWrist =
     Math_abs (numSub (Finite (x leftWrist)) (Finite (x rightWrist)))"

text \<open>\<open>wristDistanceX > shoulderWidth * 2.0\<close>.\<close>

definition isWide :: "landmark \<Rightarrow> landmark \<Rightarrow> landmark \<Rightarrow> landmark \<Rightarrow> bool" where
  "isWide leftShoulder rightShoulder leftWrist rightWrist =
     numLess (numMul (shoulderWidth leftShoulder rightShoulder) (Finite 2))
       (wristDistanceX leftWrist rightWrist)"

definition areWristsElevated :: "landmark \<Rightarrow> landmark \<Rightarrow> landmark \<Rightarrow> landmark \<Rightarrow> bool" where
  "areWristsElevated leftShoulder rightShoulder leftWrist rightWrist =
     (numLess (Finite (y leftWrist)) (numAdd (Finite (y leftShoulder)) (toDouble 0.15)) \<and>
      numLess (Finite (y rightWrist)) (numAdd (Finite (y rightShoulder)) (toDouble 0.15)))"

text \<open>
  \<open>detectArmsSpread\<close>: \<open>false\<close> for a missing array or one shorter than 17. Otherwise
  the four entries are read; reading \<open>.x\<close> of an absent entry raises a TypeError.
\<close>

definition detectArmsSpread :: "landmark option list option \<Rightarrow> error + bool" where
  "detectArmsSpread landmarks =
     (case landmarks of
        None \<Rightarrow> Inr False
      | Some ls \<Rightarrow>
          if length ls < 17 then Inr False
          else (case (entryAt ls 11, entryAt ls 12, entryAt ls 15, entryAt ls 16) of
                  (Some leftShoulder, Some rightShoulder, Some leftWrist, Some rightWrist) \<Rightarrow>
                    Inr (isWide leftShoulder rightShoulder leftWrist rightWrist \<and>
                         areWristsElevated leftShoulder rightShoulder leftWrist rightWrist)
                | _ \<Rightarrow> Inl TypeError))"

text \<open>
  \<open>getCenterOffset\<close>: the \<open>forEach\<close> over \<open>[11, 12, 23, 24]\<close> accumulates
  \<open>(sumX, sumY, count)\<close> over the entries that are present.
\<close>

definition relevantIndices :: "nat list" where
  "relevantIndices = [11, 12, 23, 24]"

fun accumulate :: "landmark option list \<Rightarrow> nat list \<Rightarrow> real \<times> real \<times> nat \<Rightarrow> real \<times> real \<times> nat" where
  "accumulate landmarks [] acc = acc"
| "accumulate landmarks (idx # rest) (sumX, sumY, count) =
     (case entryAt landmarks idx of
        Some l \<Rightarrow> accumulate landmarks rest (sumX + x l, sumY + y l, count + 1)
      | None \<Rightarrow> accumulate landmarks rest (sumX, sumY, count))"

definition getCenterOffset :: "landmark option list option \<Rightarrow> point" where
  "getCenterOffset landmarks =
     (case landmarks of
        None \<Rightarrow> \<lparr>x = 0, y = 0\<rparr>
      | Some ls \<Rightarrow>
          if length ls = 0 then \<lparr>x = 0, y = 0\<rparr>
          else (case accumulate ls relevantIndices (0, 0, 0) of
                  (sumX, sumY, count) \<Rightarrow>
                    if count = 0 then \<lparr>x = 0, y = 0\<rparr>
                    else \<lparr>x = (sumX / real count - 0.5) * 2,
                          y = (sumY / real count - 0.5) * 2\<rparr>))"

text \<open>
  Uniform scaling of every landmark around an anchor point: each coordinate \<open>c\<close>
  becomes \<open>a + s * (c - a)\<close>; absent entries stay absent.
\<close>

definition scaleLandmark :: "real \<Rightarrow> real \<times> real \<Rightarrow> landmark \<Rightarrow> landmark" where
  "scaleLandmark s anchor l =
     l\<lparr>x := fst anchor + s * (x l - fst anchor), y := snd anchor + s * (y l - snd anchor)\<rparr>"

definition scaleLandmarks ::
  "real \<Rightarrow> real \<times> real \<Rightarrow> landmark option list \<Rightarrow> landmark option list" where
  "scaleLandmarks s anchor ls = map (map_option (scaleLandmark s anchor)) ls"

text \<open>
  The exact quantities that \<open>shoulderWidth\<close> and \<open>wristDistanceX\<close> approximate: the
  Euclidean distance of the shoulders and the horizontal distance of the wrists.
\<close>

definition shoulderDistance :: "landmark \<Rightarrow> landmark \<Rightarrow> real" where
  "shoulderDistance leftShoulder rightShoulder =
     sqrt ((x leftShoulder - x rightShoulder)\<^sup>2 + (y leftShoulder - y rightShoulder)\<^sup>2)"

definition wristSpan :: "landmark \<Rightarrow> landmark \<Rightarrow> real" where
  "wristSpan leftWrist rightWrist = \<bar>x leftWrist - x rightWrist\<bar>"

text \<open>
  A landmark whose coordinates are at most \<open>1024\<close> in magnitude. MediaPipe normalises
  the coordinates of a landmark inside the image to \<open>[0, 1]\<close>.
\<close>

definition inFrame :: "landmark \<Rightarrow> bool" where
  "inFrame l = (\<bar>x l\<bar> \<le> 1024 \<and> \<bar>y l\<bar> \<le> 1024)"

section \<open>Focus state and pose handling (App)\<close>

text \<open>
  The state the callbacks of \<open>App\<close> read and write: the React states \<open>pose\<close> and
  \<open>focusedId\<close>, the ref \<open>lastFocusTime\<close>, the auto-dismiss callbacks that
  \<open>setTimeout\<close> has pending (each by its due time, in scheduling order), and the two
  resources of the MediaPipe effect, \<open>poseRef.current\<close> and \<open>cameraInstance\<close>
  (\<open>None\<close> when null). \<open>feedbackContext\<close> tells whether the feedback canvas can be
  drawn on: \<open>canvasRef.current\<close> and \<open>videoRef.current\<close> are set and
  \<open>getContext('2d')\<close> gives a context.

  The collection \<open>photos\<close> is a React state too, but \<open>setPhotos\<close> is never called:
  it is an argument of the callbacks here, and \<open>SAMPLE_PHOTOS\<close> in every run of the
  application.

  \<open>triggerRandomFocus\<close> is re-created whenever \<open>focusedId\<close> changes (its dependency
  list), so the \<open>focusedId\<close> it reads is the one of the state.
\<close>

datatype resource = Active | Released

record AppState =
  pose :: "PoseData option"
  focusedId :: "string option"
  lastFocusTime :: int
  dismissTimers :: "int list"
  poseRef :: "resource option"
  cameraInstance :: "resource option"
  feedbackContext :: bool

text \<open>How a callback ends: it returns, or an exception leaves it.\<close>

datatype completion = Normal | Throw error

text \<open>
  JavaScript truthiness of a \<open>string | null\<close>: \<open>null\<close> and the empty string are falsy.
\<close>

fun truthy :: "string option \<Rightarrow> bool" where
  "truthy None = False"
| "truthy (Some s) = (s \<noteq> [])"

text \<open>\<open>photos[randomIndex]\<close>: \<open>undefined\<close> outside the array.\<close>

definition photoAt :: "PhotoItem list \<Rightarrow> int \<Rightarrow> PhotoItem option" where
  "photoAt photos i = (if 0 \<le> i \<and> i < int (length photos) then Some (photos ! nat i) else None)"

text \<open>
  \<open>triggerRandomFocus\<close>, with the value of \<open>Math.random()\<close> and of \<open>Date.now()\<close> as
  arguments. The write to \<open>lastFocusTime.current\<close> precedes the read of
  \<open>selected.id\<close>, which raises a TypeError when \<open>selected\<close> is \<open>undefined\<close>; the
  state returned with \<open>Throw\<close> is the state at the throw.
\<close>

definition triggerRandomFocus ::
  "PhotoItem list \<Rightarrow> real \<Rightarrow> int \<Rightarrow> AppState \<Rightarrow> completion \<times> AppState" where
  "triggerRandomFocus photos random now st =
     (if truthy (focusedId st) \<or> now - lastFocusTime st < 5000 then (Normal, st)
      else
        let st1 = st\<lparr>lastFocusTime := now\<rparr>;
            randomIndex = \<lfloor>random * real (length photos)\<rfloor>
        in (case photoAt photos randomIndex of
              None \<Rightarrow> (Throw TypeError, st1)
            | Some selected \<Rightarrow>
                (Normal, st1\<lparr>focusedId := Some (id' selected),
                              dismissTimers := dismissTimers st1 @ [now + 5000]\<rparr>)))"

text \<open>
  The auto-dismiss callback is \<open>setFocusedId(null)\<close>. \<open>runTimers now\<close> runs every
  pending callback that is due at \<open>now\<close> and removes it from the pending ones.
\<close>

definition dismiss :: "AppState \<Rightarrow> AppState" where
  "dismiss st = st\<lparr>focusedId := None\<rparr>"

definition runTimers :: "int \<Rightarrow> AppState \<Rightarrow> AppState" where
  "runTimers now st =
     fold (\<lambda>due. dismiss) (filter (\<lambda>due. due \<le> now) (dismissTimers st))
       (st\<lparr>dismissTimers := filter (\<lambda>due. now < due) (dismissTimers st)\<rparr>)"

text \<open>
  The feedback drawing at the end of \<open>onResults\<close>: with a context to draw on, the
  \<open>forEach\<close> reads \<open>lm.x\<close> of every entry, which raises a TypeError on an entry
  that is \<open>undefined\<close> or \<open>null\<close>. The pixels drawn are not part of the state.
\<close>

definition drawFeedback :: "landmark option list \<Rightarrow> AppState \<Rightarrow> completion" where
  "drawFeedback ls st =
     (if feedbackContext st \<and> None \<in> set ls then Throw TypeError else Normal)"

text \<open>\<open>onResults\<close>, on the \<open>poseLandmarks\<close> field of the results event.\<close>

definition onResults ::
  "PhotoItem list \<Rightarrow> real \<Rightarrow> int \<Rightarrow> landmark option list option \<Rightarrow> AppState
     \<Rightarrow> completion \<times> AppState" where
  "onResults photos random now poseLandmarks st =
     (case poseLandmarks of
        None \<Rightarrow> (Normal, st\<lparr>pose := None\<rparr>)
      | Some ls \<Rightarrow>
          if length ls = 0 then (Normal, st\<lparr>pose := None\<rparr>)
          else
            let offset = getCenterOffset (Some ls)
            in (case detectArmsSpread (Some ls) of
                  Inl e \<Rightarrow> (Throw e, st)
                | Inr spread \<Rightarrow>
                   let signal =
                         \<lparr>x = x offset, y = y offset, isArmsSpread = spread,
                          score = (case entryAt ls 0 of
                                     None \<Rightarrow> 0.5
                                   | Some l \<Rightarrow> (case visibility l of None \<Rightarrow> 0.5 | Some v \<Rightarrow> v))\<rparr>;
                       st1 = st\<lparr>pose := Some signal\<rparr>;
                       triggered = (if spread then triggerRandomFocus photos random now st1
                                    else (Normal, st1))
                   in (case triggered of
                         (Throw e, st2) \<Rightarrow> (Throw e, st2)
                       | (Normal, st2) \<Rightarrow> (drawFeedback ls st2, st2))))"

text \<open>
  The cleanup of the MediaPipe effect: it closes the pose instance and stops the camera.
  It holds no handle of the auto-dismiss timers and clears none.
\<close>

definition cleanup :: "AppState \<Rightarrow> AppState" where
  "cleanup st =
     st\<lparr>poseRef := map_option (\<lambda>r. Released) (poseRef st),
        cameraInstance := map_option (\<lambda>r. Released) (cameraInstance st)\<rparr>"

text \<open>
  The body of the MediaPipe effect, with the modules loaded and the video element
  present: a new pose instance and a new camera.
\<close>

definition mediaPipeEffect :: "AppState \<Rightarrow> AppState" where
  "mediaPipeEffect st = st\<lparr>poseRef := Some Active, cameraInstance := Some Active\<rparr>"

text \<open>The state of a freshly mounted \<open>App\<close> whose MediaPipe effect has run.\<close>

definition initialState :: AppState where
  "initialState =
     \<lparr>pose = None, focusedId = None, lastFocusTime = 0, dismissTimers = [],
      poseRef = Some Active, cameraInstance = Some Active, feedbackContext = True\<rparr>"

text \<open>
  A run of the mounted application is a sequence of events from the initial state: a
  results event of the pose tracker, with the values \<open>Math.random()\<close> and
  \<open>Date.now()\<close> would give in it; the timers that are due running; and a render after
  which \<open>onResults\<close> is a new function, so that the MediaPipe effect is cleaned up and
  runs again. The collection is \<open>SAMPLE_PHOTOS\<close> throughout.
\<close>

datatype event =
  Results real int "landmark option list option"
| TimersDue int
| EffectRerun

text \<open>
  \<open>SAMPLE_PHOTOS\<close>: 80 items \<open>photo-0\<close> ... \<open>photo-79\<close>; \<open>decimal\<close> gives the
  digits of a number as a template literal prints them.
\<close>

fun decimal :: "nat \<Rightarrow> string" where
  "decimal n =
     (if n < 10 then [char_of (48 + n)]
      else decimal (n div 10) @ [char_of (48 + n mod 10)])"

declare decimal.simps [simp del]

definition SAMPLE_PHOTOS :: "PhotoItem list" where
  "SAMPLE_PHOTOS =
     map (\<lambda>i. \<lparr>id' = ''photo-'' @ decimal i,
                url = ''https://picsum.photos/seed/school-'' @ decimal i @ ''/600/800''\<rparr>)
       [0..<80]"

fun step :: "event \<Rightarrow> AppState \<Rightarrow> AppState" where
  "step (Results random now poseLandmarks) st =
     snd (onResults SAMPLE_PHOTOS random now poseLandmarks st)"
| "step (TimersDue now) st = runTimers now st"
| "step EffectRerun st = mediaPipeEffect (cleanup st)"

definition run :: "event list \<Rightarrow> AppState" where
  "run events = fold step events initialState"





section \<open>Sphere layout (PhotoWall)\<close>

type_synonym vec3 = "real \<times> real \<times> real"

text \<open>An element of \<open>cardData\<close>: the photo's own fields, a position and Euler angles.\<close>

record card = PhotoItem +
  position :: vec3
  rotation :: vec3

text \<open>
  \<open>cardData\<close>. The Euler angles are read from a fresh \<open>THREE.Object3D\<close> placed at
  the position after \<open>lookAt(0, 0, 0)\<close>; three.js is not part of the sources, so what
  that yields for a position is the parameter \<open>lookAtOrigin\<close>.
\<close>

definition cardData :: "(vec3 \<Rightarrow> vec3) \<Rightarrow> PhotoItem list \<Rightarrow> card list" where
  "cardData lookAtOrigin photos =
     (let count = length photos;
          radius = 10
      in map (\<lambda>(p, i).
            let phi = arccos (-1 + (2 * real i) / real count);
                theta = sqrt (real count * pi) * phi;
                x = radius * cos theta * sin phi;
                y = radius * sin theta * sin phi;
                z = radius * cos phi
            in \<lparr>id' = id' p, url = url p, position = (x, y, z),
                rotation = lookAtOrigin (x, y, z)\<rparr>)
          (zip photos [0..<count]))"

definition distanceToOrigin :: "vec3 \<Rightarrow> real" where
  "distanceToOrigin v = (case v of (a, b, c) \<Rightarrow> sqrt (a\<^sup>2 + b\<^sup>2 + c\<^sup>2))"

section \<open>Per-frame animation (PhotoCard)\<close>

text \<open>
  Modelled from the spec: \<open>Vector3.lerp\<close> of three.js, which is not under the sources.
  The spec has \<open>position \<leftarrow> lerp(position, target, rate * delta)\<close>, linear for
  positions: each component moves by \<open>(v - this) * alpha\<close>, and \<open>alpha\<close> is used as
  it is given. The interpolation is computed over the reals.
\<close>

definition lerp :: "vec3 \<Rightarrow> vec3 \<Rightarrow> real \<Rightarrow> vec3" where
  "lerp this v alpha =
     (case (this, v) of
        ((tx, ty, tz), (vx, vy, vz)) \<Rightarrow>
          (tx + (vx - tx) * alpha, ty + (vy - ty) * alpha, tz + (vz - tz) * alpha))"

definition distanceTo :: "vec3 \<Rightarrow> vec3 \<Rightarrow> real" where
  "distanceTo a b =
     (case (a, b) of
        ((ax, ay, az), (bx, by', bz)) \<Rightarrow>
          sqrt ((ax - bx)\<^sup>2 + (ay - by')\<^sup>2 + (az - bz)\<^sup>2))"

text \<open>
  A quaternion \<open>(x, y, z, w)\<close>; orientations are unit quaternions, and \<open>q\<close> and
  \<open>-q\<close> are the same orientation.
\<close>

type_synonym quat = "real \<times> real \<times> real \<times> real"

definition dot :: "quat \<Rightarrow> quat \<Rightarrow> real" where
  "dot a b =
     (case (a, b) of
        ((ax, ay, az, aw), (bx, by', bz, bw)) \<Rightarrow> ax * bx + ay * by' + az * bz + aw * bw)"

definition normalized :: "quat \<Rightarrow> bool" where
  "normalized q = (dot q q = 1)"

text \<open>
  Modelled from the spec: \<open>Quaternion.slerp\<close> of three.js, which is not under the
  sources. The spec has the orientation move by spherical interpolation at the same
  rate as the position, along the shortest arc: with \<open>halfTheta\<close> the angle between
  the two unit quaternions, the target negated when the dot product is negative, the
  result is \<open>sin ((1 - t) * halfTheta) / sin halfTheta\<close> of the one plus
  \<open>sin (t * halfTheta) / sin halfTheta\<close> of the other, and the quaternion itself when
  both are the same orientation. \<open>t\<close> is used as it is given. The interpolation is
  computed over the reals; the normalised linear blend that three.js substitutes when
  the two quaternions differ by less than its rounding threshold is left out.
\<close>

definition slerp :: "quat \<Rightarrow> quat \<Rightarrow> real \<Rightarrow> quat" where
  "slerp this qb t =
     (case (this, qb) of
        ((ax, ay, az, aw), (bx, by', bz, bw)) \<Rightarrow>
          let cosHalfTheta = \<bar>dot this qb\<bar>;
              sign = (if dot this qb < 0 then - 1 else 1)
          in if 1 \<le> cosHalfTheta then this
             else
               let halfTheta = arccos cosHalfTheta;
                   ratioA = sin ((1 - t) * halfTheta) / sin halfTheta;
                   ratioB = sign * sin (t * halfTheta) / sin halfTheta
               in (ratioA * ax + ratioB * bx, ratioA * ay + ratioB * by',
                   ratioA * az + ratioB * bz, ratioA * aw + ratioB * bw))"

text \<open>
  The angle between two orientations, as \<open>Quaternion.angleTo\<close> measures it:
  \<open>2 * acos(abs(clamp(dot, -1, 1)))\<close>.
\<close>

definition angleTo :: "quat \<Rightarrow> quat \<Rightarrow> real" where
  "angleTo this q = 2 * arccos \<bar>min 1 (max (- 1) (dot this q))\<bar>"

text \<open>The animated group, \<open>meshRef.current\<close>.\<close>

record mesh =
  position :: vec3
  quaternion :: quat
  scale :: vec3

text \<open>
  The \<open>useFrame\<close> callback of \<open>PhotoCard\<close> on an existing mesh. In the focused
  branch the source derives \<open>localFocusPos\<close> and \<open>localFocusQuat\<close> from the camera
  and the parent with three.js operations; they are the argument \<open>localFocus\<close>, which
  is \<open>None\<close> when the mesh has no parent. The pulse of the glow mesh is another object
  and is left out.
\<close>

definition useFrame ::
  "vec3 \<Rightarrow> quat \<Rightarrow> bool \<Rightarrow> (vec3 \<times> quat) option \<Rightarrow> real \<Rightarrow> mesh \<Rightarrow> mesh" where
  "useFrame targetPos targetQuat isFocused localFocus delta m =
     (if isFocused then
        let m1 = (case localFocus of
                    Some (localFocusPos, localFocusQuat) \<Rightarrow>
                      m\<lparr>position := lerp (position m) localFocusPos (delta * 7),
                        quaternion := slerp (quaternion m) localFocusQuat (delta * 7)\<rparr>
                  | None \<Rightarrow> m)
        in m1\<lparr>scale := lerp (scale m1) (4.5, 4.5, 1) (delta * 7)\<rparr>
      else
        m\<lparr>position := lerp (position m) targetPos (delta * 3),
          quaternion := slerp (quaternion m) targetQuat (delta * 3),
          scale := lerp (scale m) (1, 1, 1) (delta * 3)\<rparr>)"

text \<open>
  The distances of a transform to a target transform \<open>(position, orientation, scale)\<close>:
  Euclidean for position and scale, the angle for the orientation.
\<close>

definition distances :: "mesh \<Rightarrow> vec3 \<times> quat \<times> vec3 \<Rightarrow> real \<times> real \<times> real" where
  "distances m target =
     (case target of
        (tp, tq, ts) \<Rightarrow>
          (distanceTo (position m) tp, angleTo (quaternion m) tq, distanceTo (scale m) ts))"

text \<open>
  Two operations on such triples of distances: every component multiplied by the same
  factor, and the componentwise order.
\<close>

definition scaled :: "real \<Rightarrow> real \<times> real \<times> real \<Rightarrow> real \<times> real \<times> real" where
  "scaled k d = (case d of (a, b, c) \<Rightarrow> (k * a, k * b, k * c))"

definition noFarther :: "real \<times> real \<times> real \<Rightarrow> real \<times> real \<times> real \<Rightarrow> bool" where
  "noFarther d d' = (case (d, d') of ((a, b, c), (a', b', c')) \<Rightarrow> a \<le> a' \<and> b \<le> b' \<and> c \<le> c')"

section \<open>Example inputs\<close>

text \<open>A landmark object with coordinates only.\<close>

definition landmarkAt :: "real \<Rightarrow> real \<Rightarrow> landmark" where
  "landmarkAt a b = \<lparr>x = a, y = b, visibility = None\<rparr>"

text \<open>Thirteen landmarks, all at \<open>(0.75, 0.5)\<close>: indices 11 and 12 exist, 23 and 24 do not.\<close>

definition thirteenLandmarks :: "landmark option list" where
  "thirteenLandmarks = replicate 13 (Some (landmarkAt 0.75 0.5))"

text \<open>
  Seventeen landmarks with shoulders at \<open>(0.375, 0.5)\<close>, \<open>(0.625, 0.5)\<close> and wrists at
  \<open>(0, 0.75)\<close>, \<open>(1, 0.75)\<close>: arms spread, wrists 0.25 below the shoulders. Every
  coordinate of the examples is a double.
\<close>

definition lowArmsPose :: "landmark option list" where
  "lowArmsPose =
     (replicate 17 (Some (landmarkAt 0.5 0.5)))
       [11 := Some (landmarkAt 0.375 0.5), 12 := Some (landmarkAt 0.625 0.5),
        15 := Some (landmarkAt 0 0.75), 16 := Some (landmarkAt 1 0.75)]"

text \<open>The same four landmarks in an array whose other entries differ.\<close>

definition lowArmsPose' :: "landmark option list" where
  "lowArmsPose' =
     (replicate 17 (Some (landmarkAt 0.125 0.875)))
       [0 := None, 11 := Some (landmarkAt 0.375 0.5), 12 := Some (landmarkAt 0.625 0.5),
        15 := Some (landmarkAt 0 0.75), 16 := Some (landmarkAt 1 0.75)]"

text \<open>
  The scenario of the spec for the centre offset: 33 slots of which only the shoulders,
  11 and 12, hold a landmark, each at \<open>(0.5, 0.5)\<close>.
\<close>

definition shouldersOnly :: "landmark option list" where
  "shouldersOnly =
     (replicate 33 None)[11 := Some (landmarkAt 0.5 0.5), 12 := Some (landmarkAt 0.5 0.5)]"

text \<open>
  All 33 landmarks present, arms spread at shoulder height: shoulders at
  \<open>(0.375, 0.5)\<close>, \<open>(0.625, 0.5)\<close>, wrists at \<open>(0, 0.5)\<close>, \<open>(1, 0.5)\<close>.
\<close>

definition spreadPose :: "landmark option list" where
  "spreadPose =
     (replicate 33 (Some (landmarkAt 0.5 0.5)))
       [11 := Some (landmarkAt 0.375 0.5), 12 := Some (landmarkAt 0.625 0.5),
        15 := Some (landmarkAt 0 0.5), 16 := Some (landmarkAt 1 0.5)]"

text \<open>
  A pose at the threshold of the span condition, wrists above the shoulders. The
  shoulders are \<open>\<surd>13 / 32\<close> apart, and the right wrist is at the double
  \<open>0.22534695471649935\<close>, the one next above twice the double nearest that distance.
\<close>

definition thresholdPose :: "landmark option list" where
  "thresholdPose =
     (replicate 17 (Some (landmarkAt 0 0)))
       [11 := Some (landmarkAt 0 0.5), 12 := Some (landmarkAt 0.0625 0.59375),
        15 := Some (landmarkAt 0 0),
        16 := Some (landmarkAt (8118979690322420 / 2 ^ 55) 0)]"

text \<open>A value of \<open>Date.now()\<close>.\<close>

definition someNow :: int where
  "someNow = 1700000000000"

text \<open>A stand-in for \<open>Object3D.lookAt\<close>, the parameter of \<open>cardData\<close>.\<close>

definition noRotation :: "vec3 \<Rightarrow> vec3" where
  "noRotation v = (0, 0, 0)"

text \<open>A mesh at the origin, not rotated, with unit scale.\<close>

definition restMesh :: mesh where
  "restMesh = \<lparr>position = (0, 0, 0), quaternion = (0, 0, 0, 1), scale = (1, 1, 1)\<rparr>"

section \<open>Auxiliary facts\<close>

subsection \<open>Landmark arrays\<close>

lemma entryAt_beyond: "length ls \<le> idx \<Longrightarrow> entryAt ls idx = None"
  by (simp add: entryAt_def)

lemma detectArmsSpread_short: "length ls < 17 \<Longrightarrow> detectArmsSpread (Some ls) = Inr False"
  by (simp add: detectArmsSpread_def)

lemma getCenterOffset_short:
  assumes "length ls < 17"
  shows "getCenterOffset (Some ls) =
     (case (entryAt ls 11, entryAt ls 12) of
        (None, None) \<Rightarrow> \<lparr>x = 0, y = 0\<rparr>
      | (Some l, None) \<Rightarrow> \<lparr>x = (x l - 0.5) * 2, y = (y l - 0.5) * 2\<rparr>
      | (None, Some r) \<Rightarrow> \<lparr>x = (x r - 0.5) * 2, y = (y r - 0.5) * 2\<rparr>
      | (Some l, Some r) \<Rightarrow>
          \<lparr>x = ((x l + x r) / 2 - 0.5) * 2, y = ((y l + y r) / 2 - 0.5) * 2\<rparr>)"
proof -
  have far: "entryAt ls 23 = None" "entryAt ls 24 = None"
    using assms by (simp_all add: entryAt_beyond)
  show ?thesis
  proof (cases "length ls = 0")
    case True
    then show ?thesis by (simp add: getCenterOffset_def entryAt_def)
  next
    case False
    then show ?thesis
      by (simp add: getCenterOffset_def relevantIndices_def far split: option.splits)
  qed
qed

subsection \<open>Rounding\<close>

text \<open>
  Rounding to a double moves a real of magnitude at most \<open>2 ^ 1000\<close> by at most the
  relative error \<open>2\<^sup>-\<^sup>5\<^sup>3\<close> plus the absolute error \<open>2\<^sup>-\<^sup>1\<^sup>0\<^sup>7\<^sup>5\<close>, and does not overflow.
\<close>

lemma roundTiesToEven_error: "\<bar>of_int (roundTiesToEven r) - r\<bar> \<le> 1/2"
  unfolding roundTiesToEven_def Let_def by (auto; linarith)

lemma exponent_cases:
  assumes "r \<noteq> 0"
  shows "2 powi (exponent r) \<le> \<bar>r\<bar> \<or> exponent r = - 1022"
proof (cases "- 1022 \<le> \<lfloor>log 2 \<bar>r\<bar>\<rfloor>")
  case True
  then have e: "exponent r = \<lfloor>log 2 \<bar>r\<bar>\<rfloor>" by (simp add: exponent_def)
  have "2 powr (of_int \<lfloor>log 2 \<bar>r\<bar>\<rfloor>) \<le> 2 powr (log 2 \<bar>r\<bar>)"
    by (intro powr_mono) auto
  also have "\<dots> = \<bar>r\<bar>" using assms by simp
  finally have "2 powi \<lfloor>log 2 \<bar>r\<bar>\<rfloor> \<le> \<bar>r\<bar>"
    by (simp add: powr_real_of_int')
  then show ?thesis using e by simp
next
  case False
  then show ?thesis by (simp add: exponent_def)
qed

lemma toDouble_error:
  assumes "\<bar>r\<bar> \<le> 2 ^ 1000"
  shows "\<exists>v. toDouble r = Finite v \<and> \<bar>v - r\<bar> \<le> \<bar>r\<bar> / 2 ^ 53 + 1 / 2 ^ 1075"
proof (cases "r = 0")
  case True
  then show ?thesis by (simp add: toDouble_def)
next
  case False
  define ulp :: real where "ulp = 2 powi (exponent r - 52)"
  define v where "v = of_int (roundTiesToEven (r / ulp)) * ulp"
  have up: "0 < ulp" by (simp add: ulp_def)
  have "\<bar>of_int (roundTiesToEven (r / ulp)) - r / ulp\<bar> * ulp \<le> 1/2 * ulp"
    using roundTiesToEven_error up by (intro mult_right_mono) auto
  moreover have "\<bar>of_int (roundTiesToEven (r / ulp)) - r / ulp\<bar> * ulp = \<bar>v - r\<bar>"
  proof -
    have "\<bar>of_int (roundTiesToEven (r / ulp)) - r / ulp\<bar> * ulp
        = \<bar>(of_int (roundTiesToEven (r / ulp)) - r / ulp) * ulp\<bar>"
      using up by (simp add: abs_mult)
    also have "(of_int (roundTiesToEven (r / ulp)) - r / ulp) * ulp = v - r"
      using up by (simp add: v_def field_simps)
    finally show ?thesis .
  qed
  ultimately have err: "\<bar>v - r\<bar> \<le> ulp / 2" by simp
  have half: "ulp / 2 \<le> \<bar>r\<bar> / 2 ^ 53 + 1 / 2 ^ 1075"
  proof -
    have u: "ulp / 2 = 2 powi (exponent r) / 2 ^ 53"
      by (simp add: ulp_def power_int_diff)
    from exponent_cases [OF False] show ?thesis
    proof
      assume "2 powi (exponent r) \<le> \<bar>r\<bar>"
      then have "2 powi (exponent r) / 2 ^ 53 \<le> \<bar>r\<bar> / 2 ^ 53"
        by (intro divide_right_mono) auto
      then show ?thesis using u by simp
    next
      assume "exponent r = - 1022"
      then have "ulp / 2 = 1 / 2 ^ 1075"
        by (simp add: ulp_def power_int_minus field_simps)
      then show ?thesis by simp
    qed
  qed
  have b: "\<bar>v\<bar> < 2 ^ 1024"
  proof -
    have "\<bar>v\<bar> \<le> \<bar>r\<bar> + \<bar>v - r\<bar>" by simp
    also have "\<dots> \<le> \<bar>r\<bar> + (\<bar>r\<bar> / 2 ^ 53 + 1 / 2 ^ 1075)" using err half by simp
    also have "\<dots> \<le> 2 ^ 1000 + (2 ^ 1000 / 2 ^ 53 + 1 / 2 ^ 1075)"
      using assms by (intro add_mono divide_right_mono) auto
    also have "\<dots> < 2 ^ 1024" by simp
    finally show ?thesis .
  qed
  have "toDouble r = Finite v"
    using False b by (simp add: toDouble_def Let_def ulp_def [symmetric] v_def [symmetric] abs_less_iff not_le)
  then show ?thesis using err half by auto
qed

lemma toDouble_bound:
  assumes "\<bar>r\<bar> \<le> K" "K \<le> 2 ^ 1000" "1 / 2 ^ 1000 \<le> K"
  obtains v where "toDouble r = Finite v" "\<bar>v - r\<bar> \<le> K / 2 ^ 52"
proof -
  have "\<bar>r\<bar> \<le> 2 ^ 1000" using assms(1,2) by (rule order_trans)
  then obtain v where v: "toDouble r = Finite v" "\<bar>v - r\<bar> \<le> \<bar>r\<bar> / 2 ^ 53 + 1 / 2 ^ 1075"
    using toDouble_error by blast
  have a: "\<bar>r\<bar> / 2 ^ 53 \<le> K / 2 ^ 53"
    using assms(1) by (intro divide_right_mono) auto
  have "(1 / 2 ^ 1000) / 2 ^ 75 \<le> K / 2 ^ 75"
    using assms(3) by (intro divide_right_mono) auto
  moreover have "(1 / 2 ^ 1000) / 2 ^ 75 = (1::real) / 2 ^ 1075" by simp
  moreover have "K / 2 ^ 75 \<le> K / 2 ^ 53"
    using assms(3) by (intro divide_left_mono) auto
  ultimately have b: "1 / 2 ^ 1075 \<le> K / 2 ^ 53" by linarith
  have "K / 2 ^ 53 + K / 2 ^ 53 = K / 2 ^ 52" by simp
  then have "\<bar>v - r\<bar> \<le> K / 2 ^ 52" using v(2) a b by linarith
  then show ?thesis using v(1) that by blast
qed


text \<open>
  Where rounding lands: a real in the binade of \<open>2 ^ e\<close> that is nearer than half a unit
  in the last place to a multiple of that unit rounds to it.
\<close>

lemma roundTiesToEven_near:
  assumes "\<bar>q - of_int n\<bar> < 1/2"
  shows "roundTiesToEven q = n"
proof -
  have "\<lfloor>q\<rfloor> = n \<or> \<lfloor>q\<rfloor> = n - 1" using assms by linarith
  then show ?thesis
  proof
    assume f: "\<lfloor>q\<rfloor> = n"
    have "q - of_int n < 1/2" using assms by linarith
    then show ?thesis unfolding roundTiesToEven_def Let_def f by simp
  next
    assume f: "\<lfloor>q\<rfloor> = n - 1"
    have "1/2 < q - of_int (n - 1)" "\<not> q - of_int (n - 1) < 1/2" using assms f by linarith+
    then show ?thesis unfolding roundTiesToEven_def Let_def f by simp
  qed
qed

lemma exponent_binade:
  assumes "2 powi e \<le> \<bar>r\<bar>" "\<bar>r\<bar> < 2 powi (e + 1)" "- 1022 \<le> e"
  shows "exponent r = e"
proof -
  have p: "0 < \<bar>r\<bar>" using assms(1) by (rule less_le_trans [rotated]) simp
  have "2 powr (of_int e) \<le> \<bar>r\<bar>" "\<bar>r\<bar> < 2 powr (of_int (e + 1))"
    using assms(1,2) by (simp_all only: powr_real_of_int' [of 2, simplified])
  then have "\<lfloor>log 2 \<bar>r\<bar>\<rfloor> = e"
    using floor_log_eq_powr_iff [of "\<bar>r\<bar>" 2 e] p by simp
  then show ?thesis using assms(3) by (simp add: exponent_def)
qed

lemma toDouble_nearest:
  assumes "2 powi e \<le> \<bar>r\<bar>" "\<bar>r\<bar> < 2 powi (e + 1)" "- 1022 \<le> e" "e \<le> 1022"
    and "\<bar>r - of_int n * 2 powi (e - 52)\<bar> < 2 powi (e - 53)"
  shows "toDouble r = Finite (of_int n * 2 powi (e - 52))"
proof -
  define ulp :: real where "ulp = 2 powi (e - 52)"
  have up: "0 < ulp" by (simp add: ulp_def)
  have "0 < \<bar>r\<bar>" using assms(1) by (rule less_le_trans [rotated]) simp
  then have r0: "r \<noteq> 0" by simp
  have ex: "exponent r = e" using assms(1-3) by (rule exponent_binade)
  have h: "2 powi (e - 53) = ulp / 2" by (simp add: ulp_def power_int_diff)
  have "r / ulp - of_int n = (r - of_int n * ulp) / ulp"
    using up by (simp add: field_simps)
  then have "\<bar>r / ulp - of_int n\<bar> = \<bar>r - of_int n * ulp\<bar> / ulp"
    using up by (simp only: abs_divide abs_of_pos)
  also have "\<dots> < (ulp / 2) / ulp"
    using assms(5) up unfolding h ulp_def [symmetric] by (intro divide_strict_right_mono) auto
  also have "\<dots> = 1/2" using up by simp
  finally have n: "roundTiesToEven (r / ulp) = n" by (rule roundTiesToEven_near)
  have b: "\<bar>of_int n * ulp\<bar> < 2 ^ 1024"
  proof -
    have "\<bar>of_int n * ulp\<bar> \<le> \<bar>r\<bar> + \<bar>r - of_int n * ulp\<bar>" by simp
    also have "\<dots> < 2 powi (e + 1) + 2 powi (e - 53)"
      using assms(2,5) by (simp add: ulp_def)
    also have "\<dots> \<le> 2 powi 1023 + 2 powi 1023"
      using assms(4) by (intro add_mono power_int_increasing) auto
    also have "\<dots> = (2::real) ^ 1024" by simp
    finally show ?thesis .
  qed
  show ?thesis
    using r0 b by (simp add: toDouble_def Let_def ex ulp_def [symmetric] n abs_less_iff not_le)
qed


lemma toDouble_sqrt:
  assumes "- 1022 \<le> e" "e \<le> 1022" "0 < n"
    and "(2 powi e)\<^sup>2 \<le> v" "v < (2 powi (e + 1))\<^sup>2"
    and "((of_int n - 1/2) * 2 powi (e - 52))\<^sup>2 < v"
    and "v < ((of_int n + 1/2) * 2 powi (e - 52))\<^sup>2"
  shows "toDouble (sqrt v) = Finite (of_int n * 2 powi (e - 52))"
proof (rule toDouble_nearest)
  have v0: "0 \<le> v" using assms(4) by (rule order_trans [rotated]) simp
  then have a: "\<bar>sqrt v\<bar> = sqrt v" by simp
  show "2 powi e \<le> \<bar>sqrt v\<bar>" unfolding a using assms(4) by (rule real_le_rsqrt)
  show "\<bar>sqrt v\<bar> < 2 powi (e + 1)" unfolding a using assms(5) by (intro real_less_lsqrt) auto
  show "- 1022 \<le> e" "e \<le> 1022" by (rule assms)+
  have h: "2 powi (e - 53) = (2::real) powi (e - 52) / 2" by (simp add: power_int_diff)
  have "(of_int n - 1/2) * 2 powi (e - 52) < sqrt v"
    using assms(6) by (rule real_less_rsqrt)
  then have l: "of_int n * 2 powi (e - 52) - 2 powi (e - 52) / 2 < sqrt v"
    by (simp add: algebra_simps)
  have "sqrt v < (of_int n + 1/2) * 2 powi (e - 52)"
    using assms(3,7) by (intro real_less_lsqrt) auto
  then have u: "sqrt v < of_int n * 2 powi (e - 52) + 2 powi (e - 52) / 2"
    by (simp add: algebra_simps)
  show "\<bar>sqrt v - of_int n * 2 powi (e - 52)\<bar> < 2 powi (e - 53)"
    unfolding h using l u by linarith
qed

text \<open>The accumulated error of \<open>shoulderWidth * 2.0\<close> and the comparison with the span.\<close>

lemma width_range:
  fixes W :: real
  assumes "1 / 2 ^ 30 \<le> W" "W \<le> 4096"
  shows "1 / 2 ^ 60 \<le> W * W" "W * W \<le> 4096 * 4096"
proof -
  have "(1 / 2 ^ 30) * (1 / 2 ^ 30) \<le> W * W"
    using assms(1) by (intro mult_mono) auto
  then show "1 / 2 ^ 60 \<le> W * W" by simp
  have "0 \<le> W" using assms(1) by (rule order_trans [rotated]) simp
  then show "W * W \<le> 4096 * 4096"
    using assms(2) by (intro mult_mono) auto
qed

lemma square_error:
  fixes W :: real
  assumes "1 / 2 ^ 30 \<le> W" "W \<le> 4096" "\<bar>a - b\<bar> \<le> W"
  obtains p where "Math_pow2 (numSub (Finite a) (Finite b)) = Finite p"
    "\<bar>p - (a - b) * (a - b)\<bar> \<le> 5 * (W * W) / 2 ^ 52"
proof -
  define d where "d = a - b"
  have W0: "0 < W" using assms(1) by (rule less_le_trans [rotated]) simp
  have dW: "\<bar>d\<bar> \<le> W" using assms(3) by (simp add: d_def)
  have r: "1 / 2 ^ 60 \<le> W * W" "W * W \<le> 4096 * 4096"
    using width_range [OF assms(1,2)] by blast+
  obtain v where v: "toDouble d = Finite v" "\<bar>v - d\<bar> \<le> W / 2 ^ 52"
    using toDouble_bound [of d W] dW assms(1,2) by force
  have s: "\<bar>v + d\<bar> \<le> 3 * W"
  proof -
    have "\<bar>v + d\<bar> \<le> \<bar>v - d\<bar> + 2 * \<bar>d\<bar>" by simp
    moreover have "W / 2 ^ 52 \<le> W" using W0 by (simp add: field_simps)
    ultimately show ?thesis using v(2) dW by linarith
  qed
  have "\<bar>v * v - d * d\<bar> = \<bar>v - d\<bar> * \<bar>v + d\<bar>"
    by (simp add: abs_mult [symmetric] algebra_simps)
  also have "\<dots> \<le> (W / 2 ^ 52) * (3 * W)"
    using v(2) s by (intro mult_mono) auto
  also have "\<dots> = 3 * (W * W) / 2 ^ 52" by simp
  finally have e1: "\<bar>v * v - d * d\<bar> \<le> 3 * (W * W) / 2 ^ 52" .
  have dd: "d * d \<le> W * W"
  proof -
    have "\<bar>d\<bar> * \<bar>d\<bar> \<le> W * W" using dW by (intro mult_mono) auto
    then show ?thesis by simp
  qed
  have "3 * (W * W) / 2 ^ 52 \<le> W * W" using W0 by (simp add: field_simps)
  moreover have "0 \<le> v * v" by simp
  ultimately have vv: "\<bar>v * v\<bar> \<le> 2 * (W * W)" using e1 dd by linarith
  obtain p where p: "toDouble (v * v) = Finite p" "\<bar>p - v * v\<bar> \<le> 2 * (W * W) / 2 ^ 52"
    using toDouble_bound [of "v * v" "2 * (W * W)"] vv r by force
  have "\<bar>p - d * d\<bar> \<le> 5 * (W * W) / 2 ^ 52" using p(2) e1 by linarith
  moreover have "Math_pow2 (numSub (Finite a) (Finite b)) = Finite p"
    by (simp add: Math_pow2_def d_def [symmetric] v(1) p(1))
  ultimately show ?thesis using that by (simp add: d_def)
qed


lemma shoulderDistance_square:
  "shoulderDistance l r * shoulderDistance l r
     = (x l - x r) * (x l - x r) + (y l - y r) * (y l - y r)"
proof -
  have "(shoulderDistance l r)\<^sup>2 = (x l - x r)\<^sup>2 + (y l - y r)\<^sup>2"
    unfolding shoulderDistance_def by (rule real_sqrt_pow2) simp
  then show ?thesis by (simp add: power2_eq_square)
qed

lemma shoulderDistance_nonneg: "0 \<le> shoulderDistance l r"
  by (simp add: shoulderDistance_def)

lemma abs_le_of_square:
  fixes d W :: real
  assumes "d * d \<le> W * W" "0 \<le> W"
  shows "\<bar>d\<bar> \<le> W"
proof (rule ccontr)
  assume "\<not> \<bar>d\<bar> \<le> W"
  then have "W < \<bar>d\<bar>" by simp
  then have "W * W < \<bar>d\<bar> * \<bar>d\<bar>" using assms(2) by (intro mult_strict_mono') auto
  then show False using assms(1) by simp
qed

lemma shoulderDistance_inFrame:
  assumes "inFrame l" "inFrame r"
  shows "shoulderDistance l r \<le> 4096"
proof -
  have a: "\<bar>x l - x r\<bar> \<le> 2048" "\<bar>y l - y r\<bar> \<le> 2048"
    using assms by (auto simp: inFrame_def)
  have "\<bar>x l - x r\<bar> * \<bar>x l - x r\<bar> \<le> 2048 * 2048"
    using a(1) by (intro mult_mono) auto
  moreover have "\<bar>y l - y r\<bar> * \<bar>y l - y r\<bar> \<le> 2048 * 2048"
    using a(2) by (intro mult_mono) auto
  ultimately have "shoulderDistance l r * shoulderDistance l r \<le> 4096 * 4096"
    by (simp add: shoulderDistance_square)
  then have "\<bar>shoulderDistance l r\<bar> \<le> 4096" by (rule abs_le_of_square) simp
  then show ?thesis by simp
qed

lemma shoulderWidth_error:
  assumes "inFrame l" "inFrame r" "1 / 2 ^ 30 \<le> shoulderDistance l r"
  obtains T where "numMul (shoulderWidth l r) (Finite 2) = Finite T"
    "\<bar>T - 2 * shoulderDistance l r\<bar> \<le> 32 * shoulderDistance l r / 2 ^ 52"
proof -
  define W where "W = shoulderDistance l r"
  define dx where "dx = x l - x r"
  define dy where "dy = y l - y r"
  have Wl: "1 / 2 ^ 30 \<le> W" using assms(3) by (simp add: W_def)
  have Wu: "W \<le> 4096" using shoulderDistance_inFrame [OF assms(1,2)] by (simp add: W_def)
  have W0: "0 < W" using Wl by (rule less_le_trans [rotated]) simp
  have WW: "W * W = dx * dx + dy * dy"
    by (simp add: W_def dx_def dy_def shoulderDistance_square)
  have r: "1 / 2 ^ 60 \<le> W * W" "W * W \<le> 4096 * 4096"
    using width_range [OF Wl Wu] by blast+
  have "dx * dx \<le> W * W" "dy * dy \<le> W * W" using WW by simp_all
  then have d: "\<bar>dx\<bar> \<le> W" "\<bar>dy\<bar> \<le> W"
    using W0 by (auto intro: abs_le_of_square)
  obtain px where px: "Math_pow2 (numSub (Finite (x l)) (Finite (x r))) = Finite px"
      "\<bar>px - dx * dx\<bar> \<le> 5 * (W * W) / 2 ^ 52"
    using square_error [OF Wl Wu, of "x l" "x r"] d(1) unfolding dx_def by blast
  obtain py where py: "Math_pow2 (numSub (Finite (y l)) (Finite (y r))) = Finite py"
      "\<bar>py - dy * dy\<bar> \<le> 5 * (W * W) / 2 ^ 52"
    using square_error [OF Wl Wu, of "y l" "y r"] d(2) unfolding dy_def by blast
  have small: "W * W / 2 ^ 52 \<le> W * W / 100" using W0 by (simp add: field_simps)
  have s1: "\<bar>(px + py) - W * W\<bar> \<le> 10 * (W * W) / 2 ^ 52"
    using px(2) py(2) WW by linarith
  have "0 \<le> W * W" by simp
  then have s2: "\<bar>px + py\<bar> \<le> 2 * (W * W)" using s1 small by linarith
  obtain S where S: "toDouble (px + py) = Finite S" "\<bar>S - (px + py)\<bar> \<le> 2 * (W * W) / 2 ^ 52"
    using toDouble_bound [of "px + py" "2 * (W * W)"] s2 r by force
  have s3: "\<bar>S - W * W\<bar> \<le> 12 * (W * W) / 2 ^ 52" using S(2) s1 by linarith
  have Spos: "0 < S"
  proof -
    have "0 < W * W" using W0 by simp
    then show ?thesis using s3 small by linarith
  qed
  define q where "q = sqrt S"
  have q0: "0 \<le> q" using Spos by (simp add: q_def)
  have qq: "q * q = S" using Spos by (simp add: q_def)
  have s4: "\<bar>q - W\<bar> \<le> 12 * W / 2 ^ 52"
  proof -
    have "\<bar>q - W\<bar> * W \<le> \<bar>q - W\<bar> * (q + W)"
      using q0 by (intro mult_left_mono) auto
    also have "\<dots> = \<bar>(q - W) * (q + W)\<bar>" using q0 W0 by (simp add: abs_mult)
    also have "(q - W) * (q + W) = S - W * W" using qq by (simp add: algebra_simps)
    also have "\<bar>S - W * W\<bar> \<le> (12 * W / 2 ^ 52) * W" using s3 by simp
    finally show ?thesis using W0 by (simp only: mult_le_cancel_right_pos)
  qed
  have "W / 2 ^ 52 \<le> W / 100" using W0 by (simp add: field_simps)
  then have s5: "\<bar>q\<bar> \<le> 2 * W" using s4 W0 by linarith
  obtain w where w: "toDouble q = Finite w" "\<bar>w - q\<bar> \<le> 2 * W / 2 ^ 52"
    using toDouble_bound [of q "2 * W"] s5 Wl Wu by force
  have s6: "\<bar>w - W\<bar> \<le> 14 * W / 2 ^ 52" using w(2) s4 by linarith
  have s7: "\<bar>w * 2\<bar> \<le> 4 * W" using s6 \<open>W / 2 ^ 52 \<le> W / 100\<close> W0 by linarith
  obtain T where T: "toDouble (w * 2) = Finite T" "\<bar>T - w * 2\<bar> \<le> 4 * W / 2 ^ 52"
    using toDouble_bound [of "w * 2" "4 * W"] s7 Wl Wu by force
  have "\<bar>T - 2 * W\<bar> \<le> 32 * W / 2 ^ 52" using T(2) s6 by linarith
  moreover have "numMul (shoulderWidth l r) (Finite 2) = Finite T"
  proof -
    have "shoulderWidth l r = Finite w"
      unfolding shoulderWidth_def px(1) py(1)
      using Spos by (simp add: S(1) q_def [symmetric] w(1))
    then show ?thesis by (simp add: T(1))
  qed
  ultimately show ?thesis using that by (simp add: W_def)
qed

lemma isWide_margin:
  assumes "inFrame lS" "inFrame rS" "inFrame lW" "inFrame rW"
    and "1 / 2 ^ 30 \<le> shoulderDistance lS rS"
    and "wristSpan lW rW \<le> (1 - 1 / 2 ^ 40) * (2 * shoulderDistance lS rS) \<or>
         (1 + 1 / 2 ^ 40) * (2 * shoulderDistance lS rS) \<le> wristSpan lW rW"
  shows "isWide lS rS lW rW = (2 * shoulderDistance lS rS < wristSpan lW rW)"
proof -
  define W where "W = shoulderDistance lS rS"
  define a where "a = x lW - x rW"
  have Wl: "1 / 2 ^ 30 \<le> W" using assms(5) by (simp add: W_def)
  have Wu: "W \<le> 4096" using shoulderDistance_inFrame [OF assms(1,2)] by (simp add: W_def)
  have W0: "0 < W" using Wl by (rule less_le_trans [rotated]) simp
  have au: "\<bar>a\<bar> \<le> 2048" using assms(3,4) by (auto simp: inFrame_def a_def)
  obtain T where T: "numMul (shoulderWidth lS rS) (Finite 2) = Finite T"
      "\<bar>T - 2 * W\<bar> \<le> 32 * W / 2 ^ 52"
    using shoulderWidth_error [OF assms(1,2,5)] unfolding W_def by blast
  have m: "\<bar>a\<bar> \<le> (1 - 1 / 2 ^ 40) * (2 * W) \<or> (1 + 1 / 2 ^ 40) * (2 * W) \<le> \<bar>a\<bar>"
    using assms(6) by (simp add: wristSpan_def W_def a_def)
  have k: "W / 2 ^ 40 = 4096 * (W / 2 ^ 52)" by simp
  have p: "0 < W / 2 ^ 52" using W0 by simp
  from m have "\<exists>v. toDouble a = Finite v \<and> (T < \<bar>v\<bar>) = (2 * W < \<bar>a\<bar>)"
  proof
    assume lo: "\<bar>a\<bar> \<le> (1 - 1 / 2 ^ 40) * (2 * W)"
    then have "\<bar>a\<bar> \<le> 2 * W" using W0 by (simp add: field_simps)
    then obtain v where v: "toDouble a = Finite v" "\<bar>v - a\<bar> \<le> 2 * W / 2 ^ 52"
      using toDouble_bound [of a "2 * W"] Wl Wu by force
    have "\<bar>a\<bar> \<le> 2 * W - 2 * (W / 2 ^ 40)" using lo by (simp add: algebra_simps)
    then have "\<bar>v\<bar> \<le> T" "\<bar>a\<bar> \<le> 2 * W" using v(2) T(2) k p by linarith+
    then show ?thesis using v(1) by auto
  next
    assume hi: "(1 + 1 / 2 ^ 40) * (2 * W) \<le> \<bar>a\<bar>"
    then have h: "2 * W + 2 * (W / 2 ^ 40) \<le> \<bar>a\<bar>" by (simp add: algebra_simps)
    moreover have "(1::real) / 2 ^ 1000 \<le> 1 / 2 ^ 30" by simp
    ultimately have "1 / 2 ^ 1000 \<le> \<bar>a\<bar>" using Wl p k by linarith
    then obtain v where v: "toDouble a = Finite v" "\<bar>v - a\<bar> \<le> \<bar>a\<bar> / 2 ^ 52"
      using toDouble_bound [of a "\<bar>a\<bar>"] au by force
    define A where "A = \<bar>a\<bar>"
    define E where "E = \<bar>v - a\<bar>"
    have 1: "A - E \<le> \<bar>v\<bar>" unfolding A_def E_def by simp
    have 2: "T \<le> 2 * W + 32 * W / 2 ^ 52" using T(2) by linarith
    have 3: "E \<le> A / 2 ^ 52" using v(2) by (simp add: A_def E_def)
    have 4: "(1 + 1 / 2 ^ 40) * (2 * W) \<le> A" using hi by (simp add: A_def)
    have "T < A - E" using 2 3 4 W0 by (simp add: field_simps)
    then have "T < \<bar>v\<bar>" using 1 by linarith
    moreover have "2 * W < \<bar>a\<bar>" using h p k by linarith
    ultimately have "T < \<bar>v\<bar>" "2 * W < \<bar>a\<bar>" by blast+
    then show ?thesis using v(1) by auto
  qed
  then obtain v where v: "toDouble a = Finite v" "(T < \<bar>v\<bar>) = (2 * W < \<bar>a\<bar>)" by blast
  show ?thesis
    by (simp add: isWide_def T(1) wristDistanceX_def a_def [symmetric] v W_def [symmetric]
        wristSpan_def)
qed

lemma wrist_elevated:
  assumes "\<bar>sy\<bar> \<le> 1024"
    and "wy - sy \<le> 0.15 - 1 / 2 ^ 40 \<or> 0.15 + 1 / 2 ^ 40 \<le> wy - sy"
  shows "numLess (Finite wy) (numAdd (Finite sy) (toDouble 0.15)) = (wy - sy < 0.15)"
proof -
  have k: "(0.15::real) = 3 / 20" by simp
  obtain c where c: "toDouble 0.15 = Finite c" "\<bar>c - 0.15\<bar> \<le> 1 / 2 ^ 52"
    using toDouble_bound [of "0.15" 1] by force
  have "(1::real) / 2 ^ 52 \<le> 1 / 100" by simp
  then have "\<bar>sy + c\<bar> \<le> 1025" using assms(1) c(2) unfolding k by linarith
  then obtain z where z: "toDouble (sy + c) = Finite z" "\<bar>z - (sy + c)\<bar> \<le> 1025 / 2 ^ 52"
    using toDouble_bound [of "sy + c" 1025] by force
  have "(1::real) / 2 ^ 52 + 1025 / 2 ^ 52 < 1 / 2 ^ 40" by simp
  then have "\<bar>z - (sy + 3 / 20)\<bar> < 1 / 2 ^ 40" using c(2) z(2) unfolding k by linarith
  then have "(wy < z) = (wy - sy < 3 / 20)" using assms(2) unfolding k by linarith
  moreover have "numLess (Finite wy) (numAdd (Finite sy) (toDouble 0.15)) = (wy < z)"
    by (simp only: c(1) numAdd.simps z(1) numLess.simps)
  ultimately show ?thesis unfolding k by (rule trans [rotated])
qed

lemma elevated_margin:
  assumes "inFrame lS" "inFrame rS"
    and "y lW - y lS \<le> 0.15 - 1 / 2 ^ 40 \<or> 0.15 + 1 / 2 ^ 40 \<le> y lW - y lS"
    and "y rW - y rS \<le> 0.15 - 1 / 2 ^ 40 \<or> 0.15 + 1 / 2 ^ 40 \<le> y rW - y rS"
  shows "areWristsElevated lS rS lW rW = (y lW - y lS < 0.15 \<and> y rW - y rS < 0.15)"
proof -
  have "\<bar>y lS\<bar> \<le> 1024" "\<bar>y rS\<bar> \<le> 1024" using assms(1,2) by (simp_all add: inFrame_def)
  then show ?thesis
    using assms(3,4) by (simp only: areWristsElevated_def wrist_elevated)
qed

lemma detect_present:
  assumes "17 \<le> length ls"
    and "entryAt ls 11 = Some lS" "entryAt ls 12 = Some rS"
    and "entryAt ls 15 = Some lW" "entryAt ls 16 = Some rW"
  shows "detectArmsSpread (Some ls) =
           Inr (isWide lS rS lW rW \<and> areWristsElevated lS rS lW rW)"
  using assms(1) by (simp add: detectArmsSpread_def assms(2-5))

lemma detect_conditioned:
  assumes "17 \<le> length ls"
    and "entryAt ls 11 = Some lS" "entryAt ls 12 = Some rS"
    and "entryAt ls 15 = Some lW" "entryAt ls 16 = Some rW"
    and "inFrame lS" "inFrame rS" "inFrame lW" "inFrame rW"
    and "1 / 2 ^ 30 \<le> shoulderDistance lS rS"
    and "wristSpan lW rW \<le> (1 - 1 / 2 ^ 40) * (2 * shoulderDistance lS rS) \<or>
         (1 + 1 / 2 ^ 40) * (2 * shoulderDistance lS rS) \<le> wristSpan lW rW"
    and "y lW - y lS \<le> 0.15 - 1 / 2 ^ 40 \<or> 0.15 + 1 / 2 ^ 40 \<le> y lW - y lS"
    and "y rW - y rS \<le> 0.15 - 1 / 2 ^ 40 \<or> 0.15 + 1 / 2 ^ 40 \<le> y rW - y rS"
  shows "detectArmsSpread (Some ls) =
           Inr (2 * shoulderDistance lS rS < wristSpan lW rW \<and>
                y lW - y lS < 0.15 \<and> y rW - y rS < 0.15)"
proof -
  have w: "isWide lS rS lW rW = (2 * shoulderDistance lS rS < wristSpan lW rW)"
    using assms(6-11) by (rule isWide_margin)
  have e: "areWristsElevated lS rS lW rW = (y lW - y lS < 0.15 \<and> y rW - y rS < 0.15)"
    using assms(6,7,12,13) by (rule elevated_margin)
  show ?thesis
    using assms(1-5) by (simp only: detect_present w e)
qed

lemma shoulderDistance_scale:
  assumes "0 \<le> s"
  shows "shoulderDistance (scaleLandmark s a l) (scaleLandmark s a r) = s * shoulderDistance l r"
proof -
  have "(x (scaleLandmark s a l) - x (scaleLandmark s a r))\<^sup>2
          + (y (scaleLandmark s a l) - y (scaleLandmark s a r))\<^sup>2
      = s\<^sup>2 * ((x l - x r)\<^sup>2 + (y l - y r)\<^sup>2)"
    by (simp add: scaleLandmark_def power2_eq_square algebra_simps)
  then show ?thesis
    using assms by (simp add: shoulderDistance_def real_sqrt_mult)
qed

lemma wristSpan_scale:
  assumes "0 \<le> s"
  shows "wristSpan (scaleLandmark s a l) (scaleLandmark s a r) = s * wristSpan l r"
proof -
  have "x (scaleLandmark s a l) - x (scaleLandmark s a r) = s * (x l - x r)"
    by (simp add: scaleLandmark_def algebra_simps)
  then show ?thesis
    using assms by (simp add: wristSpan_def abs_mult)
qed

lemma height_scale:
  "y (scaleLandmark s a l) - y (scaleLandmark s a r) = s * (y l - y r)"
  by (simp add: scaleLandmark_def algebra_simps)

lemma entryAt_scale:
  "entryAt (scaleLandmarks s a ls) i = map_option (scaleLandmark s a) (entryAt ls i)"
  by (simp add: entryAt_def scaleLandmarks_def)

lemma length_scale: "length (scaleLandmarks s a ls) = length ls"
  by (simp add: scaleLandmarks_def)

lemma shoulderDistance_level: "y l = y r \<Longrightarrow> shoulderDistance l r = \<bar>x l - x r\<bar>"
  by (simp add: shoulderDistance_def)

lemma detect_scaled_conditioned:
  assumes "17 \<le> length ls" and "0 < s"
    and "entryAt ls 11 = Some lS" "entryAt ls 12 = Some rS"
    and "entryAt ls 15 = Some lW" "entryAt ls 16 = Some rW"
    and "inFrame (scaleLandmark s a lS)" "inFrame (scaleLandmark s a rS)"
    and "inFrame (scaleLandmark s a lW)" "inFrame (scaleLandmark s a rW)"
    and "1 / 2 ^ 30 \<le> s * shoulderDistance lS rS"
    and "wristSpan lW rW \<le> (1 - 1 / 2 ^ 40) * (2 * shoulderDistance lS rS) \<or>
         (1 + 1 / 2 ^ 40) * (2 * shoulderDistance lS rS) \<le> wristSpan lW rW"
    and "s * (y lW - y lS) \<le> 0.15 - 1 / 2 ^ 40 \<or> 0.15 + 1 / 2 ^ 40 \<le> s * (y lW - y lS)"
    and "s * (y rW - y rS) \<le> 0.15 - 1 / 2 ^ 40 \<or> 0.15 + 1 / 2 ^ 40 \<le> s * (y rW - y rS)"
  shows "detectArmsSpread (Some (scaleLandmarks s a ls)) =
           Inr (2 * shoulderDistance lS rS < wristSpan lW rW \<and>
                s * (y lW - y lS) < 0.15 \<and> s * (y rW - y rS) < 0.15)"
proof -
  have s0: "0 \<le> s" using assms(2) by simp
  have m: "s * wristSpan lW rW \<le> (1 - 1 / 2 ^ 40) * (2 * (s * shoulderDistance lS rS)) \<or>
      (1 + 1 / 2 ^ 40) * (2 * (s * shoulderDistance lS rS)) \<le> s * wristSpan lW rW"
  proof -
    have "s * wristSpan lW rW \<le> s * ((1 - 1 / 2 ^ 40) * (2 * shoulderDistance lS rS)) \<or>
        s * ((1 + 1 / 2 ^ 40) * (2 * shoulderDistance lS rS)) \<le> s * wristSpan lW rW"
      using assms(12) mult_left_mono [OF _ s0] by blast
    then show ?thesis by (simp only: mult.left_commute [of s])
  qed
  have c: "(2 * (s * shoulderDistance lS rS) < s * wristSpan lW rW)
      = (2 * shoulderDistance lS rS < wristSpan lW rW)"
  proof -
    have "(s * (2 * shoulderDistance lS rS) < s * wristSpan lW rW)
        = (2 * shoulderDistance lS rS < wristSpan lW rW)"
      using assms(2) by (simp only: mult_less_cancel_left_pos)
    then show ?thesis by (simp only: mult.left_commute [of s])
  qed
  have "detectArmsSpread (Some (scaleLandmarks s a ls)) =
      Inr (2 * shoulderDistance (scaleLandmark s a lS) (scaleLandmark s a rS)
             < wristSpan (scaleLandmark s a lW) (scaleLandmark s a rW) \<and>
           y (scaleLandmark s a lW) - y (scaleLandmark s a lS) < 0.15 \<and>
           y (scaleLandmark s a rW) - y (scaleLandmark s a rS) < 0.15)"
  proof (rule detect_conditioned)
    show "17 \<le> length (scaleLandmarks s a ls)" using assms(1) by (simp add: length_scale)
    show "entryAt (scaleLandmarks s a ls) 11 = Some (scaleLandmark s a lS)"
      "entryAt (scaleLandmarks s a ls) 12 = Some (scaleLandmark s a rS)"
      "entryAt (scaleLandmarks s a ls) 15 = Some (scaleLandmark s a lW)"
      "entryAt (scaleLandmarks s a ls) 16 = Some (scaleLandmark s a rW)"
      by (simp_all add: entryAt_scale assms(3-6))
    show "inFrame (scaleLandmark s a lS)" "inFrame (scaleLandmark s a rS)"
      "inFrame (scaleLandmark s a lW)" "inFrame (scaleLandmark s a rW)"
      by (rule assms)+
    show "1 / 2 ^ 30 \<le> shoulderDistance (scaleLandmark s a lS) (scaleLandmark s a rS)"
      using assms(11) by (simp only: shoulderDistance_scale [OF s0])
    show "wristSpan (scaleLandmark s a lW) (scaleLandmark s a rW)
          \<le> (1 - 1 / 2 ^ 40) * (2 * shoulderDistance (scaleLandmark s a lS) (scaleLandmark s a rS)) \<or>
        (1 + 1 / 2 ^ 40) * (2 * shoulderDistance (scaleLandmark s a lS) (scaleLandmark s a rS))
          \<le> wristSpan (scaleLandmark s a lW) (scaleLandmark s a rW)"
      using m by (simp only: shoulderDistance_scale [OF s0] wristSpan_scale [OF s0])
    show "y (scaleLandmark s a lW) - y (scaleLandmark s a lS) \<le> 0.15 - 1 / 2 ^ 40 \<or>
        0.15 + 1 / 2 ^ 40 \<le> y (scaleLandmark s a lW) - y (scaleLandmark s a lS)"
      using assms(13) by (simp only: height_scale)
    show "y (scaleLandmark s a rW) - y (scaleLandmark s a rS) \<le> 0.15 - 1 / 2 ^ 40 \<or>
        0.15 + 1 / 2 ^ 40 \<le> y (scaleLandmark s a rW) - y (scaleLandmark s a rS)"
      using assms(14) by (simp only: height_scale)
  qed
  then show ?thesis
    by (simp only: shoulderDistance_scale [OF s0] wristSpan_scale [OF s0] height_scale c)
qed

subsection \<open>The example poses\<close>

lemma lowArms_entries:
  "length lowArmsPose = 17"
  "entryAt lowArmsPose 11 = Some (landmarkAt 0.375 0.5)"
  "entryAt lowArmsPose 12 = Some (landmarkAt 0.625 0.5)"
  "entryAt lowArmsPose 15 = Some (landmarkAt 0 0.75)"
  "entryAt lowArmsPose 16 = Some (landmarkAt 1 0.75)"
  by (simp_all add: lowArmsPose_def entryAt_def)

lemma spreadPose_entries:
  "length spreadPose = 33"
  "entryAt spreadPose 11 = Some (landmarkAt 0.375 0.5)"
  "entryAt spreadPose 12 = Some (landmarkAt 0.625 0.5)"
  "entryAt spreadPose 15 = Some (landmarkAt 0 0.5)"
  "entryAt spreadPose 16 = Some (landmarkAt 1 0.5)"
  by (simp_all add: spreadPose_def entryAt_def)

lemma lowArms_result: "detectArmsSpread (Some lowArmsPose) = Inr False"
proof -
  have "detectArmsSpread (Some lowArmsPose) =
      Inr (2 * shoulderDistance (landmarkAt 0.375 0.5) (landmarkAt 0.625 0.5)
             < wristSpan (landmarkAt 0 0.75) (landmarkAt 1 0.75) \<and>
           y (landmarkAt 0 0.75) - y (landmarkAt 0.375 0.5) < 0.15 \<and>
           y (landmarkAt 1 0.75) - y (landmarkAt 0.625 0.5) < 0.15)"
    by (rule detect_conditioned)
      (simp_all add: lowArms_entries shoulderDistance_level inFrame_def wristSpan_def
        landmarkAt_def)
  then show ?thesis by (simp add: landmarkAt_def)
qed

lemma lowArms_half_result:
  "detectArmsSpread (Some (scaleLandmarks (1/2) (1/2, 1/2) lowArmsPose)) = Inr True"
proof -
  have "detectArmsSpread (Some (scaleLandmarks (1/2) (1/2, 1/2) lowArmsPose)) =
      Inr (2 * shoulderDistance (landmarkAt 0.375 0.5) (landmarkAt 0.625 0.5)
             < wristSpan (landmarkAt 0 0.75) (landmarkAt 1 0.75) \<and>
           1/2 * (y (landmarkAt 0 0.75) - y (landmarkAt 0.375 0.5)) < 0.15 \<and>
           1/2 * (y (landmarkAt 1 0.75) - y (landmarkAt 0.625 0.5)) < 0.15)"
    by (rule detect_scaled_conditioned)
      (simp_all add: lowArms_entries shoulderDistance_level inFrame_def wristSpan_def
        landmarkAt_def scaleLandmark_def)
  then show ?thesis by (simp add: shoulderDistance_level wristSpan_def landmarkAt_def)
qed

subsection \<open>Rounding at the threshold\<close>

text \<open>
  Every operation of \<open>detectArmsSpread\<close> on the pose at the threshold, and on its copy
  scaled by \<open>3/4\<close> around the origin, whose coordinates are doubles again. Only the
  square roots are inexact. In the original the doubled width rounds to
  \<open>8118979690322419 / 2 ^ 55\<close>, one unit below the span; in the copy the doubled width
  and the span are the same double.
\<close>

lemma thresholdPose_entries:
  "length thresholdPose = 17"
  "entryAt thresholdPose 11 = Some (landmarkAt 0 0.5)"
  "entryAt thresholdPose 12 = Some (landmarkAt 0.0625 0.59375)"
  "entryAt thresholdPose 15 = Some (landmarkAt 0 0)"
  "entryAt thresholdPose 16 = Some (landmarkAt (8118979690322420 / 2 ^ 55) 0)"
  by (simp_all add: thresholdPose_def entryAt_def)

lemma threshold_dx: "toDouble (- (1/16)) = Finite (- (1/16))"
  using toDouble_nearest [of "- 4" "- (1/16)" "- (2 ^ 52)"] by simp

lemma threshold_dx_squared: "toDouble (1/256) = Finite (1/256)"
  using toDouble_nearest [of "- 8" "1/256" "2 ^ 52"] by simp

lemma threshold_dy: "toDouble (- (3/32)) = Finite (- (3/32))"
  using toDouble_nearest [of "- 4" "- (3/32)" "- (3 * 2 ^ 51)"] by simp

lemma threshold_dy_squared: "toDouble (9/1024) = Finite (9/1024)"
  using toDouble_nearest [of "- 7" "9/1024" "9 * 2 ^ 49"] by simp

lemma threshold_sum: "toDouble (13/1024) = Finite (13/1024)"
  using toDouble_nearest [of "- 7" "13/1024" "13 * 2 ^ 49"] by simp

lemma threshold_sqrt: "toDouble (sqrt (13/1024)) = Finite (8118979690322419 / 2 ^ 56)"
  using toDouble_sqrt [of "- 4" 8118979690322419 "13/1024"] by (simp add: power2_eq_square)

lemma threshold_twice: "toDouble (8118979690322419 / 2 ^ 55) = Finite (8118979690322419 / 2 ^ 55)"
  using toDouble_nearest [of "- 3" "8118979690322419 / 2 ^ 55" 8118979690322419] by simp

lemma threshold_span: "toDouble (- (8118979690322420 / 2 ^ 55)) = Finite (- (8118979690322420 / 2 ^ 55))"
  using toDouble_nearest [of "- 3" "- (8118979690322420 / 2 ^ 55)" "- 8118979690322420"] by simp


lemma scaled_dx: "toDouble (- (3/64)) = Finite (- (3/64))"
  using toDouble_nearest [of "- 5" "- (3/64)" "- (3 * 2 ^ 51)"] by simp

lemma scaled_dx_squared: "toDouble (9/4096) = Finite (9/4096)"
  using toDouble_nearest [of "- 9" "9/4096" "9 * 2 ^ 49"] by simp

lemma scaled_dy: "toDouble (- (9/128)) = Finite (- (9/128))"
  using toDouble_nearest [of "- 4" "- (9/128)" "- (9 * 2 ^ 49)"] by simp

lemma scaled_dy_squared: "toDouble (81/16384) = Finite (81/16384)"
  using toDouble_nearest [of "- 8" "81/16384" "81 * 2 ^ 46"] by simp

lemma scaled_sum: "toDouble (117/16384) = Finite (117/16384)"
  using toDouble_nearest [of "- 8" "117/16384" "117 * 2 ^ 46"] by simp

lemma scaled_sqrt: "toDouble (sqrt (117/16384)) = Finite (6089234767741815 / 2 ^ 56)"
  using toDouble_sqrt [of "- 4" 6089234767741815 "117/16384"] by (simp add: power2_eq_square)

lemma scaled_twice: "toDouble (6089234767741815 / 2 ^ 55) = Finite (6089234767741815 / 2 ^ 55)"
  using toDouble_nearest [of "- 3" "6089234767741815 / 2 ^ 55" 6089234767741815] by simp

lemma scaled_span: "toDouble (- (6089234767741815 / 2 ^ 55)) = Finite (- (6089234767741815 / 2 ^ 55))"
  using toDouble_nearest [of "- 3" "- (6089234767741815 / 2 ^ 55)" "- 6089234767741815"] by simp

lemma threshold_wide:
  "isWide (landmarkAt 0 0.5) (landmarkAt 0.0625 0.59375) (landmarkAt 0 0)
     (landmarkAt (8118979690322420 / 2 ^ 55) 0)"
  using threshold_dx threshold_dx_squared threshold_dy threshold_dy_squared threshold_sum
    threshold_sqrt threshold_twice threshold_span
  by (simp add: isWide_def shoulderWidth_def wristDistanceX_def Math_pow2_def landmarkAt_def)

lemma threshold_scaled_not_wide:
  "\<not> isWide (scaleLandmark (3/4) (0, 0) (landmarkAt 0 0.5))
      (scaleLandmark (3/4) (0, 0) (landmarkAt 0.0625 0.59375))
      (scaleLandmark (3/4) (0, 0) (landmarkAt 0 0))
      (scaleLandmark (3/4) (0, 0) (landmarkAt (8118979690322420 / 2 ^ 55) 0))"
  using scaled_dx scaled_dx_squared scaled_dy scaled_dy_squared scaled_sum scaled_sqrt
    scaled_twice scaled_span
  by (simp add: isWide_def shoulderWidth_def wristDistanceX_def Math_pow2_def landmarkAt_def
      scaleLandmark_def)

lemma threshold_result: "detectArmsSpread (Some thresholdPose) = Inr True"
proof -
  have "areWristsElevated (landmarkAt 0 0.5) (landmarkAt 0.0625 0.59375) (landmarkAt 0 0)
      (landmarkAt (8118979690322420 / 2 ^ 55) 0)"
    by (subst elevated_margin) (simp_all add: inFrame_def landmarkAt_def)
  moreover have "detectArmsSpread (Some thresholdPose) =
      Inr (isWide (landmarkAt 0 0.5) (landmarkAt 0.0625 0.59375) (landmarkAt 0 0)
             (landmarkAt (8118979690322420 / 2 ^ 55) 0) \<and>
           areWristsElevated (landmarkAt 0 0.5) (landmarkAt 0.0625 0.59375) (landmarkAt 0 0)
             (landmarkAt (8118979690322420 / 2 ^ 55) 0))"
    by (rule detect_present) (simp_all add: thresholdPose_entries)
  ultimately show ?thesis using threshold_wide by simp
qed

lemma threshold_scaled_result:
  "detectArmsSpread (Some (scaleLandmarks (3/4) (0, 0) thresholdPose)) = Inr False"
proof -
  have "detectArmsSpread (Some (scaleLandmarks (3/4) (0, 0) thresholdPose)) =
      Inr (isWide (scaleLandmark (3/4) (0, 0) (landmarkAt 0 0.5))
             (scaleLandmark (3/4) (0, 0) (landmarkAt 0.0625 0.59375))
             (scaleLandmark (3/4) (0, 0) (landmarkAt 0 0))
             (scaleLandmark (3/4) (0, 0) (landmarkAt (8118979690322420 / 2 ^ 55) 0)) \<and>
           areWristsElevated (scaleLandmark (3/4) (0, 0) (landmarkAt 0 0.5))
             (scaleLandmark (3/4) (0, 0) (landmarkAt 0.0625 0.59375))
             (scaleLandmark (3/4) (0, 0) (landmarkAt 0 0))
             (scaleLandmark (3/4) (0, 0) (landmarkAt (8118979690322420 / 2 ^ 55) 0)))"
    by (rule detect_present) (simp_all add: length_scale entryAt_scale thresholdPose_entries)
  then show ?thesis using threshold_scaled_not_wide by simp
qed

subsection \<open>Focus triggers and timers\<close>

text \<open>With \<open>Math.random()\<close> in \<open>[0, 1)\<close> the index falls inside a non-empty array.\<close>

lemma photoAt_in_range:
  assumes "photos \<noteq> []" "0 \<le> r" "r < 1"
  shows "photoAt photos \<lfloor>r * real (length photos)\<rfloor>
           = Some (photos ! nat \<lfloor>r * real (length photos)\<rfloor>)"
proof -
  let ?n = "real (length photos)"
  have n: "0 < ?n" using assms(1) by simp
  have "0 \<le> r * ?n" using assms(2) by simp
  then have lo: "0 \<le> \<lfloor>r * ?n\<rfloor>" by simp
  have "r * ?n < ?n" using assms(3) n by simp
  then have hi: "\<lfloor>r * ?n\<rfloor> < int (length photos)" by (simp add: floor_less_iff)
  show ?thesis using lo hi by (simp add: photoAt_def)
qed

lemma trigger_rejected:
  "truthy (focusedId st) \<or> now - lastFocusTime st < 5000 \<Longrightarrow>
   triggerRandomFocus photos r now st = (Normal, st)"
  by (simp add: triggerRandomFocus_def)

lemma trigger_accepted:
  assumes "\<not> truthy (focusedId st)" "5000 \<le> now - lastFocusTime st"
    and "photos \<noteq> []" "0 \<le> r" "r < 1"
  shows "triggerRandomFocus photos r now st =
     (Normal, st\<lparr>lastFocusTime := now,
                  focusedId := Some (id' (photos ! nat \<lfloor>r * real (length photos)\<rfloor>)),
                  dismissTimers := dismissTimers st @ [now + 5000]\<rparr>)"
  using assms by (simp add: triggerRandomFocus_def photoAt_in_range Let_def)

lemma trigger_keeps_pose: "pose (snd (triggerRandomFocus photos r now st)) = pose st"
  by (simp add: triggerRandomFocus_def Let_def split: option.splits)

lemma fold_dismiss: "fold (\<lambda>due. dismiss) ds st = (if ds = [] then st else dismiss st)"
  by (induction ds arbitrary: st) (auto simp: dismiss_def)

lemma runTimers_due:
  "d \<in> set (dismissTimers st) \<Longrightarrow> d \<le> now \<Longrightarrow> focusedId (runTimers now st) = None"
  by (auto simp: runTimers_def fold_dismiss dismiss_def filter_empty_conv)

lemma runTimers_lastFocusTime: "lastFocusTime (runTimers now st) = lastFocusTime st"
  by (simp add: runTimers_def fold_dismiss dismiss_def)

lemma length_SAMPLE_PHOTOS: "length SAMPLE_PHOTOS = 80"
  by (simp add: SAMPLE_PHOTOS_def)

lemma SAMPLE_PHOTOS_id: "i < 80 \<Longrightarrow> id' (SAMPLE_PHOTOS ! i) = ''photo-'' @ decimal i"
  by (simp add: SAMPLE_PHOTOS_def)

lemma decimal_40: "decimal 40 = ''40''"
  by code_simp

lemma decimal_20: "decimal 20 = ''20''"
  by code_simp


text \<open>Every id of the collection is a non-empty string.\<close>

lemma SAMPLE_PHOTOS_ids: "p \<in> set SAMPLE_PHOTOS \<Longrightarrow> id' p \<noteq> []"
  by (auto simp: SAMPLE_PHOTOS_def)

lemma photoAt_member: "photoAt photos i = Some p \<Longrightarrow> p \<in> set photos"
  by (auto simp: photoAt_def split: if_splits)

lemma trigger_focus_nonempty:
  assumes "focusedId st \<noteq> Some []"
  shows "focusedId (snd (triggerRandomFocus SAMPLE_PHOTOS r now st)) \<noteq> Some []"
  using assms
  by (auto simp: triggerRandomFocus_def Let_def split: option.splits
      dest!: photoAt_member SAMPLE_PHOTOS_ids)

lemma runTimers_focus:
  "focusedId (runTimers now st) = None \<or> focusedId (runTimers now st) = focusedId st"
  by (simp add: runTimers_def fold_dismiss dismiss_def)

subsection \<open>Pose signal\<close>

lemma onResults_no_subject:
  "poseLandmarks = None \<or> poseLandmarks = Some [] \<Longrightarrow>
   onResults photos r now poseLandmarks st = (Normal, st\<lparr>pose := None\<rparr>)"
  by (auto simp: onResults_def)

lemma drawing_keeps_state:
  "snd (case triggered of
          (Throw e, st2) \<Rightarrow> (Throw e, st2)
        | (Normal, st2) \<Rightarrow> (drawFeedback ls st2, st2)) = snd triggered"
  by (cases triggered) (simp split: completion.splits)

text \<open>
  Whenever the classifier returns, the signal is assembled from the centre offset, the
  classifier's result and the visibility of landmark 0, with 0.5 for a missing one. It
  is set before the trigger and the drawing, and stays set when either of them throws.
\<close>

lemma onResults_signal:
  assumes "ls \<noteq> []" "detectArmsSpread (Some ls) = Inr spread"
  shows "pose (snd (onResults photos r now (Some ls) st)) =
     Some \<lparr>x = x (getCenterOffset (Some ls)), y = y (getCenterOffset (Some ls)),
           isArmsSpread = spread,
           score = (case entryAt ls 0 of
                      None \<Rightarrow> 0.5
                    | Some l \<Rightarrow> (case visibility l of None \<Rightarrow> 0.5 | Some v \<Rightarrow> v))\<rparr>"
  using assms by (simp add: onResults_def Let_def drawing_keeps_state trigger_keeps_pose)

subsection \<open>Runs of the application\<close>

lemma onResults_focus_nonempty:
  assumes "focusedId st \<noteq> Some []"
  shows "focusedId (snd (onResults SAMPLE_PHOTOS r now pl st)) \<noteq> Some []"
proof (cases pl)
  case None
  then show ?thesis using assms by (simp add: onResults_def)
next
  case (Some ls)
  show ?thesis
  proof (cases "detectArmsSpread (Some ls)")
    case (Inl e)
    then show ?thesis using assms Some by (simp add: onResults_def)
  next
    case (Inr spread)
    have "focusedId (snd (triggerRandomFocus SAMPLE_PHOTOS r now (st\<lparr>pose := q\<rparr>))) \<noteq> Some []"
      for q
      using assms by (intro trigger_focus_nonempty) simp
    then show ?thesis
      using assms Some Inr by (simp add: onResults_def Let_def drawing_keeps_state)
  qed
qed

lemma step_focus_nonempty:
  assumes "focusedId st \<noteq> Some []"
  shows "focusedId (step e st) \<noteq> Some []"
proof (cases e)
  case (Results r now pl)
  then show ?thesis using assms by (simp add: onResults_focus_nonempty)
next
  case (TimersDue now)
  then show ?thesis using assms runTimers_focus [of now st] by auto
next
  case EffectRerun
  then show ?thesis using assms by (simp add: mediaPipeEffect_def cleanup_def)
qed

lemma fold_step_focus_nonempty:
  "focusedId st \<noteq> Some [] \<Longrightarrow> focusedId (fold step events st) \<noteq> Some []"
  by (induction events arbitrary: st) (simp_all add: step_focus_nonempty)

text \<open>In no run is the empty string focused.\<close>

lemma run_focus_nonempty: "focusedId (run events) \<noteq> Some []"
  unfolding run_def by (rule fold_step_focus_nonempty) (simp add: initialState_def)

lemma spreadPose_detect: "detectArmsSpread (Some spreadPose) = Inr True"
proof -
  have "detectArmsSpread (Some spreadPose) =
      Inr (2 * shoulderDistance (landmarkAt 0.375 0.5) (landmarkAt 0.625 0.5)
             < wristSpan (landmarkAt 0 0.5) (landmarkAt 1 0.5) \<and>
           y (landmarkAt 0 0.5) - y (landmarkAt 0.375 0.5) < 0.15 \<and>
           y (landmarkAt 1 0.5) - y (landmarkAt 0.625 0.5) < 0.15)"
    by (rule detect_conditioned)
      (simp_all add: spreadPose_entries shoulderDistance_level inFrame_def wristSpan_def
        landmarkAt_def)
  then show ?thesis by (simp add: shoulderDistance_level wristSpan_def landmarkAt_def)
qed

lemma spreadPose_full: "None \<notin> set spreadPose"
proof -
  have "set spreadPose \<subseteq> insert (Some (landmarkAt 1 0.5)) (insert (Some (landmarkAt 0 0.5))
      (insert (Some (landmarkAt 0.625 0.5)) (insert (Some (landmarkAt 0.375 0.5))
      (set (replicate 33 (Some (landmarkAt 0.5 0.5)))))))"
    unfolding spreadPose_def
    by (intro order_trans [OF set_update_subset_insert] insert_mono order_refl)
  then show ?thesis by auto
qed

text \<open>The run of one results event with the arms spread: photo 40 is focused.\<close>

lemma gesture_run:
  "run [Results (1/2) someNow (Some spreadPose)] =
     initialState\<lparr>pose := Some \<lparr>x = x (getCenterOffset (Some spreadPose)),
                                 y = y (getCenterOffset (Some spreadPose)),
                                 isArmsSpread = True,
                                 score = 0.5\<rparr>,
                   lastFocusTime := someNow, focusedId := Some ''photo-40'',
                   dismissTimers := [someNow + 5000]\<rparr>"
proof -
  have ne: "length spreadPose \<noteq> 0"
    by (simp add: spreadPose_def)
  have e0: "entryAt spreadPose 0 = Some (landmarkAt 0.5 0.5)"
    by (simp add: spreadPose_def entryAt_def)
  have t: "triggerRandomFocus SAMPLE_PHOTOS (1/2) someNow (initialState\<lparr>pose := q\<rparr>) =
     (Normal, initialState\<lparr>pose := q, lastFocusTime := someNow,
                            focusedId := Some ''photo-40'',
                            dismissTimers := [someNow + 5000]\<rparr>)" for q
  proof -
    have "\<lfloor>(1/2) * real (length SAMPLE_PHOTOS)\<rfloor> = 40"
      by (simp add: length_SAMPLE_PHOTOS)
    moreover have "SAMPLE_PHOTOS \<noteq> []"
      using length_SAMPLE_PHOTOS by auto
    moreover have "\<not> truthy (focusedId (initialState\<lparr>pose := q\<rparr>))"
      by (simp add: initialState_def)
    moreover have "5000 \<le> someNow - lastFocusTime (initialState\<lparr>pose := q\<rparr>)"
      by (simp add: initialState_def someNow_def)
    ultimately show ?thesis
      using trigger_accepted [of "initialState\<lparr>pose := q\<rparr>" someNow SAMPLE_PHOTOS "1/2"]
      by (simp add: SAMPLE_PHOTOS_id decimal_40 initialState_def)
  qed
  show ?thesis
    using ne
    by (simp add: run_def onResults_def Let_def spreadPose_detect e0 t drawFeedback_def
        spreadPose_full landmarkAt_def)
qed

subsection \<open>Layout\<close>

lemma on_sphere_10:
  "sqrt ((10 * cos t * sin p)\<^sup>2 + (10 * sin t * sin p)\<^sup>2 + (10 * cos p)\<^sup>2) = 10"
  for t p :: real
proof -
  have "(10 * cos t * sin p)\<^sup>2 + (10 * sin t * sin p)\<^sup>2 + (10 * cos p)\<^sup>2
      = 100 * (cos t)\<^sup>2 * (sin p)\<^sup>2 + 100 * (sin t)\<^sup>2 * (sin p)\<^sup>2
          + 100 * (cos p)\<^sup>2"
    by (simp add: power_mult_distrib)
  also have "\<dots> = 10\<^sup>2"
    unfolding cos_squared_eq by (simp add: algebra_simps)
  finally show ?thesis by simp
qed

lemma cardData_position:
  assumes "i < length photos"
  shows "card.position (cardData L photos ! i) =
     (10 * cos (sqrt (real (length photos) * pi)
                  * arccos (-1 + (2 * real i) / real (length photos)))
         * sin (arccos (-1 + (2 * real i) / real (length photos))),
      10 * sin (sqrt (real (length photos) * pi)
                  * arccos (-1 + (2 * real i) / real (length photos)))
         * sin (arccos (-1 + (2 * real i) / real (length photos))),
      10 * cos (arccos (-1 + (2 * real i) / real (length photos))))"
  using assms by (simp add: cardData_def Let_def)

lemma cardData_rotation:
  assumes "i < length photos"
  shows "rotation (cardData L photos ! i) = L (card.position (cardData L photos ! i))"
  using assms by (simp add: cardData_def Let_def)

lemma cardData_distance:
  assumes "i < length photos"
  shows "distanceToOrigin (card.position (cardData L photos ! i)) = 10"
  by (simp only: cardData_position [OF assms] distanceToOrigin_def prod.case on_sphere_10)

subsection \<open>Interpolation\<close>

text \<open>One \<open>lerp\<close> multiplies the distance to its target by \<open>\<bar>1 - alpha\<bar>\<close>.\<close>

lemma distanceTo_lerp: "distanceTo (lerp a b alpha) b = \<bar>1 - alpha\<bar> * distanceTo a b"
proof -
  obtain ax ay az where a: "a = (ax, ay, az)" by (cases a) auto
  obtain bx by' bz where b: "b = (bx, by', bz)" by (cases b) auto
  have "(ax + (bx - ax) * alpha - bx)\<^sup>2 + (ay + (by' - ay) * alpha - by')\<^sup>2
          + (az + (bz - az) * alpha - bz)\<^sup>2
      = (1 - alpha)\<^sup>2 * ((ax - bx)\<^sup>2 + (ay - by')\<^sup>2 + (az - bz)\<^sup>2)"
    by (simp add: power2_eq_square algebra_simps)
  then show ?thesis
    by (simp add: a b lerp_def distanceTo_def real_sqrt_mult)
qed

lemma distanceTo_nonneg: "0 \<le> distanceTo a b"
  by (cases a; cases b) (simp add: distanceTo_def)

lemma lerp_at_target: "lerp b b alpha = b"
  by (cases b) (simp add: lerp_def)

lemma angleTo_nonneg: "0 \<le> angleTo a b"
  unfolding angleTo_def by (intro mult_nonneg_nonneg arccos_lbound) auto

lemma restMesh_normalized: "normalized (quaternion restMesh)"
  by (simp add: restMesh_def normalized_def dot_def)

subsection \<open>Spherical interpolation\<close>

lemma dot_cauchy:
  assumes "normalized a" "normalized b"
  shows "\<bar>dot a b\<bar> \<le> 1"
proof -
  obtain ax ay az aw where a: "a = (ax, ay, az, aw)" by (cases a) auto
  obtain bx by' bz bw where b: "b = (bx, by', bz, bw)" by (cases b) auto
  have "dot a a * dot b b - (dot a b)\<^sup>2 =
      (ax * by' - ay * bx)\<^sup>2 + (ax * bz - az * bx)\<^sup>2 + (ax * bw - aw * bx)\<^sup>2
        + (ay * bz - az * by')\<^sup>2 + (ay * bw - aw * by')\<^sup>2 + (az * bw - aw * bz)\<^sup>2"
    by (simp add: a b dot_def power2_eq_square algebra_simps)
  then have "0 \<le> dot a a * dot b b - (dot a b)\<^sup>2"
    by simp
  then have "(dot a b)\<^sup>2 \<le> 1"
    using assms by (simp add: normalized_def)
  then show ?thesis
    by (simp add: abs_square_le_1)
qed

text \<open>The weighted sum of two quaternions, the shape of every result of slerp.\<close>

lemma dot_combination:
  "dot (A * ax + B * bx, A * ay + B * by', A * az + B * bz, A * aw + B * bw) (bx, by', bz, bw)
     = A * dot (ax, ay, az, aw) (bx, by', bz, bw) + B * dot (bx, by', bz, bw) (bx, by', bz, bw)"
  by (simp add: dot_def algebra_simps)

lemma norm_combination:
  "dot (A * ax + B * bx, A * ay + B * by', A * az + B * bz, A * aw + B * bw)
       (A * ax + B * bx, A * ay + B * by', A * az + B * bz, A * aw + B * bw)
     = A\<^sup>2 * dot (ax, ay, az, aw) (ax, ay, az, aw)
       + B\<^sup>2 * dot (bx, by', bz, bw) (bx, by', bz, bw)
       + 2 * A * B * dot (ax, ay, az, aw) (bx, by', bz, bw)"
  by (simp add: dot_def power2_eq_square algebra_simps)

lemma slerp_combination:
  assumes "\<bar>dot (ax, ay, az, aw) (bx, by', bz, bw)\<bar> < 1"
    and "h = arccos \<bar>dot (ax, ay, az, aw) (bx, by', bz, bw)\<bar>"
    and "A = sin ((1 - t) * h) / sin h"
    and "B = (if dot (ax, ay, az, aw) (bx, by', bz, bw) < 0 then - 1 else 1) * sin (t * h) / sin h"
  shows "slerp (ax, ay, az, aw) (bx, by', bz, bw) t
     = (A * ax + B * bx, A * ay + B * by', A * az + B * bz, A * aw + B * bw)"
proof -
  have n: "\<not> 1 \<le> \<bar>dot (ax, ay, az, aw) (bx, by', bz, bw)\<bar>"
    using assms(1) by simp
  show ?thesis
    unfolding slerp_def Let_def prod.case if_not_P [OF n] assms(2,3,4) ..
qed

lemma sin_arccos_pos: "0 \<le> c \<Longrightarrow> c < 1 \<Longrightarrow> 0 < sin (arccos c)"
  by (simp add: sin_arccos real_sqrt_gt_zero abs_square_less_1)

lemma slerp_trig: "sin p * cos h + sin (h - p) = sin h * cos p" for p h :: real
  by (simp add: sin_diff)

lemma slerp_norm_trig:
  "(sin p)\<^sup>2 + (sin q)\<^sup>2 + 2 * sin p * sin q * cos (p + q) = (sin (p + q))\<^sup>2"
  for p q :: real
proof -
  have c: "(cos p)\<^sup>2 = 1 - (sin p)\<^sup>2" "(cos q)\<^sup>2 = 1 - (sin q)\<^sup>2"
    by (simp_all add: cos_squared_eq)
  have "(sin (p + q))\<^sup>2 = (sin p)\<^sup>2 * (cos q)\<^sup>2 + (cos p)\<^sup>2 * (sin q)\<^sup>2
      + 2 * sin p * sin q * (cos p * cos q)"
    unfolding sin_add by (simp add: power2_eq_square algebra_simps)
  also have "\<dots> = (sin p)\<^sup>2 + (sin q)\<^sup>2 + 2 * sin p * sin q * (cos p * cos q - sin p * sin q)"
    unfolding c by (simp add: power2_eq_square algebra_simps)
  finally show ?thesis by (simp add: cos_add)
qed

lemma slerp_dot_target:
  assumes "normalized a" "normalized b" "\<bar>dot a b\<bar> < 1"
  shows "\<bar>dot (slerp a b t) b\<bar> = \<bar>cos ((1 - t) * arccos \<bar>dot a b\<bar>)\<bar>"
proof -
  obtain ax ay az aw where a: "a = (ax, ay, az, aw)" by (cases a) auto
  obtain bx by' bz bw where b: "b = (bx, by', bz, bw)" by (cases b) auto
  define h where "h = arccos \<bar>dot a b\<bar>"
  define s :: real where "s = (if dot a b < 0 then - 1 else 1)"
  define p where "p = (1 - t) * h"
  define A where "A = sin p / sin h"
  define B where "B = s * sin (t * h) / sin h"
  have c: "cos h = \<bar>dot a b\<bar>" using assms(3) by (simp add: h_def cos_arccos)
  have sp: "0 < sin h" unfolding h_def using assms(3) by (intro sin_arccos_pos) simp_all
  have d: "dot a b = s * cos h" unfolding c s_def by simp
  have ss: "s * s = 1" by (simp add: s_def)
  have th: "t * h = h - p" by (simp add: p_def algebra_simps)
  have "slerp a b t = (A * ax + B * bx, A * ay + B * by', A * az + B * bz, A * aw + B * bw)"
    unfolding a b
    by (rule slerp_combination [where h = h])
       (use assms(3) in \<open>simp_all add: a b h_def A_def B_def s_def p_def\<close>)
  then have "dot (slerp a b t) b = A * dot a b + B * dot b b"
    by (simp add: a b dot_combination)
  also have "\<dots> = A * (s * cos h) + B"
    using assms(2) d by (simp add: normalized_def)
  also have "\<dots> = s * ((sin p * cos h + sin (h - p)) / sin h)"
    unfolding A_def B_def th using sp by (simp add: field_simps)
  also have "\<dots> = s * cos p"
    unfolding slerp_trig using sp by simp
  finally have "dot (slerp a b t) b = s * cos p" .
  then have "\<bar>dot (slerp a b t) b\<bar> = \<bar>cos p\<bar>"
    by (simp add: abs_mult s_def)
  then show ?thesis by (simp add: p_def h_def)
qed

lemma angleTo_arccos:
  assumes "\<bar>d\<bar> \<le> 1"
  shows "2 * arccos \<bar>min 1 (max (- 1) d)\<bar> = 2 * arccos \<bar>d\<bar>"
proof -
  have "min 1 (max (- 1) d) = d" using assms by auto
  then show ?thesis by simp
qed

lemma slerp_angle:
  assumes "normalized a" "normalized b" "0 \<le> t" "t \<le> 2"
  shows "angleTo (slerp a b t) b = \<bar>1 - t\<bar> * angleTo a b"
proof (cases "\<bar>dot a b\<bar> < 1")
  case True
  define h where "h = arccos \<bar>dot a b\<bar>"
  define r where "r = \<bar>1 - t\<bar> * h"
  have h0: "0 \<le> h" unfolding h_def using True by (intro arccos_lbound) simp_all
  have h2: "h \<le> pi / 2" unfolding h_def using True by (intro arccos_le_pi2) simp_all
  have t1: "\<bar>1 - t\<bar> \<le> 1" using assms(3,4) by simp
  have r0: "0 \<le> r" using h0 by (simp add: r_def)
  have "\<bar>1 - t\<bar> * h \<le> 1 * h" using t1 h0 by (rule mult_right_mono)
  then have r2: "r \<le> pi / 2" using h2 by (simp add: r_def)
  have cnn: "0 \<le> cos r" using r0 r2 by (intro cos_ge_zero) simp_all
  have "(1 - t) * h = r \<or> (1 - t) * h = - r"
    by (cases "0 \<le> 1 - t") (simp_all add: r_def algebra_simps)
  then have ceq: "cos ((1 - t) * h) = cos r" by auto
  have dd: "\<bar>dot (slerp a b t) b\<bar> = cos r"
    using cnn slerp_dot_target [OF assms(1,2) True, of t] ceq by (simp add: h_def)
  then have "\<bar>dot (slerp a b t) b\<bar> \<le> 1" by simp
  then have "angleTo (slerp a b t) b = 2 * arccos \<bar>dot (slerp a b t) b\<bar>"
    unfolding angleTo_def by (rule angleTo_arccos)
  also have "\<dots> = 2 * r"
    unfolding dd using r0 r2 pi_ge_zero by (subst arccos_cos) simp_all
  also have "\<dots> = \<bar>1 - t\<bar> * (2 * h)" by (simp add: r_def)
  also have "2 * h = angleTo a b"
    unfolding angleTo_def h_def using True by (subst angleTo_arccos) simp_all
  finally show ?thesis .
next
  case False
  then have one: "\<bar>dot a b\<bar> = 1" using dot_cauchy [OF assms(1,2)] by simp
  obtain ax ay az aw where a: "a = (ax, ay, az, aw)" by (cases a) auto
  obtain bx by' bz bw where b: "b = (bx, by', bz, bw)" by (cases b) auto
  have s: "slerp a b t = a" using one by (simp add: a b slerp_def)
  have "angleTo a b = 2 * arccos \<bar>dot a b\<bar>"
    unfolding angleTo_def using one by (subst angleTo_arccos) simp_all
  then have "angleTo a b = 0" by (simp add: one)
  then show ?thesis by (simp add: s)
qed

lemma slerp_normalized:
  assumes "normalized a" "normalized b"
  shows "normalized (slerp a b t)"
proof (cases "\<bar>dot a b\<bar> < 1")
  case True
  obtain ax ay az aw where a: "a = (ax, ay, az, aw)" by (cases a) auto
  obtain bx by' bz bw where b: "b = (bx, by', bz, bw)" by (cases b) auto
  define h where "h = arccos \<bar>dot a b\<bar>"
  define s :: real where "s = (if dot a b < 0 then - 1 else 1)"
  define p where "p = (1 - t) * h"
  define q where "q = t * h"
  define A where "A = sin p / sin h"
  define B where "B = s * sin q / sin h"
  have c: "cos h = \<bar>dot a b\<bar>" using True by (simp add: h_def cos_arccos)
  have sp: "0 < sin h" unfolding h_def using True by (intro sin_arccos_pos) simp_all
  have d: "dot a b = s * cos h" unfolding c s_def by simp
  have ss: "s\<^sup>2 = 1" by (simp add: s_def)
  have pq: "p + q = h" by (simp add: p_def q_def algebra_simps)
  have "slerp a b t = (A * ax + B * bx, A * ay + B * by', A * az + B * bz, A * aw + B * bw)"
    unfolding a b
    by (rule slerp_combination [where h = h])
       (use True in \<open>simp_all add: a b h_def A_def B_def s_def p_def q_def\<close>)
  then have "dot (slerp a b t) (slerp a b t) = A\<^sup>2 * dot a a + B\<^sup>2 * dot b b + 2 * A * B * dot a b"
    by (simp add: a b norm_combination)
  also have "\<dots> = A\<^sup>2 + B\<^sup>2 + 2 * A * B * (s * cos h)"
    using assms d by (simp add: normalized_def)
  also have "\<dots> = ((sin p)\<^sup>2 + (sin q)\<^sup>2 + 2 * sin p * sin q * cos h) / (sin h)\<^sup>2"
  proof -
    have 1: "A\<^sup>2 = (sin p)\<^sup>2 / (sin h)\<^sup>2" by (simp add: A_def power_divide)
    have 2: "B\<^sup>2 = (sin q)\<^sup>2 / (sin h)\<^sup>2"
      by (simp add: B_def power_divide power_mult_distrib ss)
    have "2 * A * B * (s * cos h) = 2 * sin p * sin q * cos h * s\<^sup>2 / (sin h)\<^sup>2"
      by (simp add: A_def B_def power2_eq_square)
    then have 3: "2 * A * B * (s * cos h) = 2 * sin p * sin q * cos h / (sin h)\<^sup>2"
      by (simp add: ss)
    show ?thesis unfolding 1 2 3 by (simp add: add_divide_distrib)
  qed
  also have "\<dots> = (sin h)\<^sup>2 / (sin h)\<^sup>2"
    using slerp_norm_trig [of p q] by (simp add: pq)
  also have "\<dots> = 1" using sp by simp
  finally show ?thesis by (simp add: normalized_def)
next
  case False
  obtain ax ay az aw where a: "a = (ax, ay, az, aw)" by (cases a) auto
  obtain bx by' bz bw where b: "b = (bx, by', bz, bw)" by (cases b) auto
  have "slerp a b t = a" using False by (simp add: a b slerp_def)
  then show ?thesis using assms by simp
qed

lemma slerp_at_target: "normalized a \<Longrightarrow> slerp a a t = a"
  by (cases a) (simp add: slerp_def normalized_def)

subsection \<open>Frames\<close>

lemma unfocused_fields:
  "position (useFrame tp tq False lf delta m) = lerp (position m) tp (delta * 3)"
  "quaternion (useFrame tp tq False lf delta m) = slerp (quaternion m) tq (delta * 3)"
  "scale (useFrame tp tq False lf delta m) = lerp (scale m) (1, 1, 1) (delta * 3)"
  by (simp_all add: useFrame_def)

lemma focused_fields:
  "position (useFrame tp tq True (Some (fp, fq)) delta m) = lerp (position m) fp (delta * 7)"
  "quaternion (useFrame tp tq True (Some (fp, fq)) delta m) = slerp (quaternion m) fq (delta * 7)"
  "scale (useFrame tp tq True (Some (fp, fq)) delta m) = lerp (scale m) (4.5, 4.5, 1) (delta * 7)"
  by (simp_all add: useFrame_def Let_def)

lemma scaled_scaled: "scaled k (scaled k' d) = scaled (k * k') d"
  by (cases d) (simp add: scaled_def)

lemma scaled_one: "scaled 1 d = d"
  by (cases d) (simp add: scaled_def)

lemma distances_nonneg:
  "distances m T = (a, b, c) \<Longrightarrow> 0 \<le> a \<and> 0 \<le> b \<and> 0 \<le> c"
  by (cases T) (auto simp: distances_def distanceTo_nonneg angleTo_nonneg)

lemma noFarther_scaled:
  assumes "0 \<le> k" "k \<le> 1"
  shows "noFarther (scaled k (distances m T)) (distances m T)"
proof -
  obtain a b c where d: "distances m T = (a, b, c)" by (cases "distances m T") auto
  then have "0 \<le> a" "0 \<le> b" "0 \<le> c" using distances_nonneg by blast+
  then have "k * a \<le> 1 * a" "k * b \<le> 1 * b" "k * c \<le> 1 * c"
    using assms(2) by (intro mult_right_mono; simp)+
  then show ?thesis by (simp add: d scaled_def noFarther_def)
qed

lemma scaled_power_tendsto:
  assumes "0 \<le> k" "k < 1"
  shows "(\<lambda>n. scaled (k ^ n) d) \<longlonglongrightarrow> (0, 0, 0)"
proof -
  obtain a b c where d: "d = (a, b, c)" by (cases d) auto
  have p: "(\<lambda>n. k ^ n) \<longlonglongrightarrow> 0" using assms by (rule LIMSEQ_realpow_zero)
  have z: "(\<lambda>n. k ^ n * v) \<longlonglongrightarrow> 0" for v :: real
    using tendsto_mult_left_zero [OF p] by simp
  show ?thesis
    unfolding d scaled_def prod.case by (intro tendsto_Pair z)
qed

lemma step_unfocused:
  assumes "0 \<le> delta" "delta * 3 \<le> 2" "normalized (quaternion m)" "normalized tq"
  shows "distances (useFrame tp tq False lf delta m) (tp, tq, (1, 1, 1))
     = scaled \<bar>1 - delta * 3\<bar> (distances m (tp, tq, (1, 1, 1)))"
proof -
  have "0 \<le> delta * 3" using assms(1) by simp
  then show ?thesis
    using assms
    by (simp add: distances_def scaled_def unfocused_fields distanceTo_lerp slerp_angle)
qed

lemma step_focused:
  assumes "0 \<le> delta" "delta * 7 \<le> 2" "normalized (quaternion m)" "normalized fq"
  shows "distances (useFrame tp tq True (Some (fp, fq)) delta m) (fp, fq, (4.5, 4.5, 1))
     = scaled \<bar>1 - delta * 7\<bar> (distances m (fp, fq, (4.5, 4.5, 1)))"
proof -
  have "0 \<le> delta * 7" using assms(1) by simp
  then show ?thesis
    using assms
    by (simp add: distances_def scaled_def focused_fields distanceTo_lerp slerp_angle)
qed

lemma iterate_normalized_unfocused:
  assumes "normalized (quaternion m)" "normalized tq"
  shows "normalized (quaternion ((useFrame tp tq False lf delta ^^ n) m))"
  using assms by (induction n) (simp_all add: unfocused_fields slerp_normalized)

lemma iterate_normalized_focused:
  assumes "normalized (quaternion m)" "normalized fq"
  shows "normalized (quaternion ((useFrame tp tq True (Some (fp, fq)) delta ^^ n) m))"
  using assms by (induction n) (simp_all add: focused_fields slerp_normalized)

lemma iterate_unfocused:
  assumes "0 \<le> delta" "delta * 3 \<le> 2" "normalized (quaternion m)" "normalized tq"
  shows "distances ((useFrame tp tq False lf delta ^^ n) m) (tp, tq, (1, 1, 1))
     = scaled (\<bar>1 - delta * 3\<bar> ^ n) (distances m (tp, tq, (1, 1, 1)))"
proof (induction n)
  case 0
  show ?case by (simp add: scaled_one)
next
  case (Suc n)
  let ?U = "useFrame tp tq False lf delta"
  let ?T = "(tp, tq, (1, 1, 1) :: vec3)"
  have nrm: "normalized (quaternion ((?U ^^ n) m))"
    using assms(3,4) by (rule iterate_normalized_unfocused)
  have "distances ((?U ^^ Suc n) m) ?T = distances (?U ((?U ^^ n) m)) ?T"
    by simp
  also have "\<dots> = scaled \<bar>1 - delta * 3\<bar> (distances ((?U ^^ n) m) ?T)"
    by (rule step_unfocused [OF assms(1,2) nrm assms(4)])
  also have "\<dots> = scaled \<bar>1 - delta * 3\<bar> (scaled (\<bar>1 - delta * 3\<bar> ^ n) (distances m ?T))"
    by (simp only: Suc)
  also have "\<dots> = scaled (\<bar>1 - delta * 3\<bar> ^ Suc n) (distances m ?T)"
    by (simp only: scaled_scaled power_Suc)
  finally show ?case .
qed

lemma iterate_focused:
  assumes "0 \<le> delta" "delta * 7 \<le> 2" "normalized (quaternion m)" "normalized fq"
  shows "distances ((useFrame tp tq True (Some (fp, fq)) delta ^^ n) m) (fp, fq, (4.5, 4.5, 1))
     = scaled (\<bar>1 - delta * 7\<bar> ^ n) (distances m (fp, fq, (4.5, 4.5, 1)))"
proof (induction n)
  case 0
  show ?case by (simp add: scaled_one)
next
  case (Suc n)
  let ?F = "useFrame tp tq True (Some (fp, fq)) delta"
  let ?L = "(fp, fq, (4.5, 4.5, 1) :: vec3)"
  have nrm: "normalized (quaternion ((?F ^^ n) m))"
    using assms(3,4) by (rule iterate_normalized_focused)
  have "distances ((?F ^^ Suc n) m) ?L = distances (?F ((?F ^^ n) m)) ?L"
    by simp
  also have "\<dots> = scaled \<bar>1 - delta * 7\<bar> (distances ((?F ^^ n) m) ?L)"
    by (rule step_focused [OF assms(1,2) nrm assms(4)])
  also have "\<dots> = scaled \<bar>1 - delta * 7\<bar> (scaled (\<bar>1 - delta * 7\<bar> ^ n) (distances m ?L))"
    by (simp only: Suc)
  also have "\<dots> = scaled (\<bar>1 - delta * 7\<bar> ^ Suc n) (distances m ?L)"
    by (simp only: scaled_scaled power_Suc)
  finally show ?case .
qed

lemma at_target_unfocused:
  assumes "normalized tq" "position m = tp" "quaternion m = tq" "scale m = (1, 1, 1)"
  shows "useFrame tp tq False lf delta m = m"
  using assms by (simp add: useFrame_def lerp_at_target slerp_at_target)

lemma at_target_focused:
  assumes "normalized fq" "position m = fp" "quaternion m = fq" "scale m = (4.5, 4.5, 1)"
  shows "useFrame tp tq True (Some (fp, fq)) delta m = m"
  using assms by (simp add: useFrame_def Let_def lerp_at_target slerp_at_target)

section \<open>The claims\<close>

subsection \<open>C1: a trigger and the size of the collection\<close>




subsection \<open>C2: arrays with fewer than 17 landmarks\<close>

text \<open>
  Claim C2, as amended. For every landmark array with fewer than 17 entries,
  \<open>detectArmsSpread\<close> returns \<open>false\<close>, and \<open>getCenterOffset\<close> returns the rescaled
  mean of the entries present at the indices 11 and 12 (the indices 23 and 24 do not
  exist): \<open>{x: 0, y: 0}\<close> when both are absent, which is always so below 12 entries.
  Neither raises: \<open>detectArmsSpread\<close> yields \<open>Inr\<close>, and \<open>getCenterOffset\<close> has no
  operation that can throw.
\<close>

theorem short_arrays_neutral:
  assumes "length ls < 17"
  shows "detectArmsSpread (Some ls) = Inr False \<and>
     getCenterOffset (Some ls) =
       (case (entryAt ls 11, entryAt ls 12) of
          (None, None) \<Rightarrow> \<lparr>x = 0, y = 0\<rparr>
        | (Some l, None) \<Rightarrow> \<lparr>x = (x l - 0.5) * 2, y = (y l - 0.5) * 2\<rparr>
        | (None, Some r) \<Rightarrow> \<lparr>x = (x r - 0.5) * 2, y = (y r - 0.5) * 2\<rparr>
        | (Some l, Some r) \<Rightarrow>
            \<lparr>x = ((x l + x r) / 2 - 0.5) * 2, y = ((y l + y r) / 2 - 0.5) * 2\<rparr>) \<and>
     (length ls < 12 \<longrightarrow> getCenterOffset (Some ls) = \<lparr>x = 0, y = 0\<rparr>)"
  using assms
  by (simp add: detectArmsSpread_short getCenterOffset_short entryAt_beyond)

text \<open>
  At thirteen landmarks placed at \<open>(0.75, 0.5)\<close> the offset is \<open>{x: 0.5, y: 0}\<close>; with
  only the first eleven of them it is \<open>{x: 0, y: 0}\<close>.
\<close>

theorem short_arrays_neutral_witness:
  "detectArmsSpread (Some thirteenLandmarks) = Inr False \<and>
   getCenterOffset (Some thirteenLandmarks) = \<lparr>x = 0.5, y = 0\<rparr> \<and>
   getCenterOffset (Some (take 11 thirteenLandmarks)) = \<lparr>x = 0, y = 0\<rparr>"
  using short_arrays_neutral [of thirteenLandmarks]
    short_arrays_neutral [of "take 11 thirteenLandmarks"]
  by (simp add: thirteenLandmarks_def entryAt_def landmarkAt_def)

text \<open>
  The claim as written fails: the thirteen landmarks are fewer than 17, and their
  offset is not \<open>{x: 0, y: 0}\<close>.
\<close>

theorem centre_offset_short_counterexample:
  "length thirteenLandmarks < 17 \<and>
   getCenterOffset (Some thirteenLandmarks) \<noteq> \<lparr>x = 0, y = 0\<rparr>"
  by (simp add: thirteenLandmarks_def getCenterOffset_def relevantIndices_def entryAt_def
      landmarkAt_def)

subsection \<open>C3: scaling the landmarks\<close>

text \<open>
  Claim C3, as amended. Take an array of at least 17 entries whose entries 11, 12, 15 and
  16 are present, and its copy scaled uniformly by \<open>s > 0\<close> around any anchor. Let the
  coordinates of the four landmarks be at most \<open>1024\<close> in magnitude and the shoulders at
  least \<open>2\<^sup>-\<^sup>3\<^sup>0\<close> apart, in both arrays, and let the span of the wrists not lie within
  the relative distance \<open>2\<^sup>-\<^sup>4\<^sup>0\<close> of twice the distance of the shoulders (scaling keeps
  that ratio). Then
  \<^item> when neither wrist is below its shoulder, the result on the scaled array is the
    result on the original one: \<open>true\<close> exactly when the span of the wrists exceeds twice
    the distance of the shoulders;
  \<^item> in general the result on either array is \<open>true\<close> exactly when the span exceeds twice
    the distance of the shoulders and each wrist is less than the absolute \<open>0.15\<close> below
    its shoulder in that array, for heights not within \<open>2\<^sup>-\<^sup>4\<^sup>0\<close> of \<open>0.15\<close>; in the
    scaled array the height of a wrist below its shoulder is \<open>s\<close> times the original one.

  The distances and the span are the exact ones; the function computes them in doubles,
  and the margins are what keeps its comparisons on the side of the exact ones.
\<close>

theorem scaled_detection:
  assumes "17 \<le> length ls" and "0 < s"
    and "entryAt ls 11 = Some lS" "entryAt ls 12 = Some rS"
    and "entryAt ls 15 = Some lW" "entryAt ls 16 = Some rW"
    and "inFrame lS" "inFrame rS" "inFrame lW" "inFrame rW"
    and "inFrame (scaleLandmark s a lS)" "inFrame (scaleLandmark s a rS)"
    and "inFrame (scaleLandmark s a lW)" "inFrame (scaleLandmark s a rW)"
    and "1 / 2 ^ 30 \<le> shoulderDistance lS rS" "1 / 2 ^ 30 \<le> s * shoulderDistance lS rS"
    and "wristSpan lW rW \<le> (1 - 1 / 2 ^ 40) * (2 * shoulderDistance lS rS) \<or>
         (1 + 1 / 2 ^ 40) * (2 * shoulderDistance lS rS) \<le> wristSpan lW rW"
  shows
    "(y lW \<le> y lS \<and> y rW \<le> y rS \<longrightarrow>
        detectArmsSpread (Some (scaleLandmarks s a ls)) = detectArmsSpread (Some ls) \<and>
        detectArmsSpread (Some ls) = Inr (2 * shoulderDistance lS rS < wristSpan lW rW)) \<and>
     ((y lW - y lS \<le> 0.15 - 1 / 2 ^ 40 \<or> 0.15 + 1 / 2 ^ 40 \<le> y lW - y lS) \<and>
      (y rW - y rS \<le> 0.15 - 1 / 2 ^ 40 \<or> 0.15 + 1 / 2 ^ 40 \<le> y rW - y rS) \<longrightarrow>
        detectArmsSpread (Some ls) =
          Inr (2 * shoulderDistance lS rS < wristSpan lW rW \<and>
               y lW - y lS < 0.15 \<and> y rW - y rS < 0.15)) \<and>
     ((s * (y lW - y lS) \<le> 0.15 - 1 / 2 ^ 40 \<or> 0.15 + 1 / 2 ^ 40 \<le> s * (y lW - y lS)) \<and>
      (s * (y rW - y rS) \<le> 0.15 - 1 / 2 ^ 40 \<or> 0.15 + 1 / 2 ^ 40 \<le> s * (y rW - y rS)) \<longrightarrow>
        detectArmsSpread (Some (scaleLandmarks s a ls)) =
          Inr (2 * shoulderDistance lS rS < wristSpan lW rW \<and>
               s * (y lW - y lS) < 0.15 \<and> s * (y rW - y rS) < 0.15))"
proof -
  let ?wide = "2 * shoulderDistance lS rS < wristSpan lW rW"
  have orig: "detectArmsSpread (Some ls) = Inr (?wide \<and> y lW - y lS < 0.15 \<and> y rW - y rS < 0.15)"
    if "y lW - y lS \<le> 0.15 - 1 / 2 ^ 40 \<or> 0.15 + 1 / 2 ^ 40 \<le> y lW - y lS"
      and "y rW - y rS \<le> 0.15 - 1 / 2 ^ 40 \<or> 0.15 + 1 / 2 ^ 40 \<le> y rW - y rS"
    using assms(1,3-10,15,17) that by (rule detect_conditioned)
  have scaled: "detectArmsSpread (Some (scaleLandmarks s a ls)) =
      Inr (?wide \<and> s * (y lW - y lS) < 0.15 \<and> s * (y rW - y rS) < 0.15)"
    if "s * (y lW - y lS) \<le> 0.15 - 1 / 2 ^ 40 \<or> 0.15 + 1 / 2 ^ 40 \<le> s * (y lW - y lS)"
      and "s * (y rW - y rS) \<le> 0.15 - 1 / 2 ^ 40 \<or> 0.15 + 1 / 2 ^ 40 \<le> s * (y rW - y rS)"
    using assms(1-6,11-14,16,17) that by (rule detect_scaled_conditioned)
  have above: "detectArmsSpread (Some (scaleLandmarks s a ls)) = detectArmsSpread (Some ls) \<and>
      detectArmsSpread (Some ls) = Inr ?wide"
    if up: "y lW \<le> y lS \<and> y rW \<le> y rS"
  proof -
    have k: "(0.15::real) = 3 / 20" by simp
    have l: "y lW - y lS \<le> 0" and r: "y rW - y rS \<le> 0" using up by simp_all
    have sl: "s * (y lW - y lS) \<le> 0" and sr: "s * (y rW - y rS) \<le> 0"
      using assms(2) l r by (simp_all add: mult_le_0_iff)
    have m: "(0::real) \<le> 3 / 20 - 1 / 2 ^ 40" by simp
    have "detectArmsSpread (Some ls) = Inr (?wide \<and> y lW - y lS < 0.15 \<and> y rW - y rS < 0.15)"
      using l r m unfolding k by (intro orig [unfolded k]) linarith+
    moreover have "detectArmsSpread (Some (scaleLandmarks s a ls)) =
        Inr (?wide \<and> s * (y lW - y lS) < 0.15 \<and> s * (y rW - y rS) < 0.15)"
      using sl sr m unfolding k by (intro scaled [unfolded k]) linarith+
    moreover have "y lW - y lS < 0.15" "y rW - y rS < 0.15"
      "s * (y lW - y lS) < 0.15" "s * (y rW - y rS) < 0.15"
      using l r sl sr unfolding k by linarith+
    ultimately show ?thesis by simp
  qed
  show ?thesis using orig scaled above by blast
qed

text \<open>
  Halving around the image centre \<open>(0.5, 0.5)\<close>. The pose with arms spread at shoulder
  height is a gesture before and after. In the pose with low arms the wrists, 0.25 below
  the shoulders before, are 0.125 below them after.
\<close>

theorem scaled_detection_witness:
  "detectArmsSpread (Some (scaleLandmarks (1/2) (1/2, 1/2) spreadPose)) = Inr True \<and>
   detectArmsSpread (Some spreadPose) = Inr True \<and>
   detectArmsSpread (Some (scaleLandmarks (1/2) (1/2, 1/2) lowArmsPose)) = Inr True \<and>
   detectArmsSpread (Some lowArmsPose) = Inr False"
  using
    scaled_detection [of spreadPose "1/2" "landmarkAt 0.375 0.5" "landmarkAt 0.625 0.5"
      "landmarkAt 0 0.5" "landmarkAt 1 0.5" "(1/2, 1/2)"]
    scaled_detection [of lowArmsPose "1/2" "landmarkAt 0.375 0.5" "landmarkAt 0.625 0.5"
      "landmarkAt 0 0.75" "landmarkAt 1 0.75" "(1/2, 1/2)"]
  by (simp add: spreadPose_entries lowArms_entries shoulderDistance_level inFrame_def
      wristSpan_def landmarkAt_def scaleLandmark_def)

text \<open>
  The claim as written fails on the pose with low arms: the original is not a gesture,
  its half-size copy is. It also fails with the wrists above the shoulders: the pose at
  the threshold is a gesture, its copy scaled by \<open>3/4\<close> around the origin is not.
\<close>

theorem scale_invariance_counterexample:
  "17 \<le> length lowArmsPose \<and> (0::real) < 1/2 \<and>
   detectArmsSpread (Some lowArmsPose) = Inr False \<and>
   detectArmsSpread (Some (scaleLandmarks (1/2) (1/2, 1/2) lowArmsPose)) = Inr True \<and>
   17 \<le> length thresholdPose \<and> (0::real) < 3/4 \<and>
   detectArmsSpread (Some thresholdPose) = Inr True \<and>
   detectArmsSpread (Some (scaleLandmarks (3/4) (0, 0) thresholdPose)) = Inr False"
  by (simp add: lowArms_entries lowArms_result lowArms_half_result thresholdPose_entries
      threshold_result threshold_scaled_result)

subsection \<open>C4: the cooldown\<close>

text \<open>
  Claim C4. Start idle with the cooldown elapsed and a non-empty collection, and let a
  gesture trigger at time \<open>t\<close>: it is accepted, an item is focused, \<open>t\<close> is recorded
  and the auto-dismiss is scheduled for \<open>t + 5000\<close>. A second gesture at \<open>t + 4999\<close>
  changes nothing. At \<open>t + 5001\<close> the auto-dismiss has run, the machine is idle again,
  and a gesture is accepted: a new item is focused, \<open>t + 5001\<close> is recorded and a new
  auto-dismiss is scheduled.
\<close>

theorem cooldown_then_retrigger:
  fixes photos :: "PhotoItem list" and st :: AppState and t :: int and r1 r2 :: real
  defines "s1 \<equiv> snd (triggerRandomFocus photos r1 t st)"
  defines "s2 \<equiv> runTimers (t + 5001) s1"
  assumes idle: "\<not> truthy (focusedId st)" and cool: "5000 \<le> t - lastFocusTime st"
    and ne: "photos \<noteq> []" and r1: "0 \<le> r1" "r1 < 1" and r2: "0 \<le> r2" "r2 < 1"
  shows "triggerRandomFocus photos r1 t st = (Normal, s1)
       \<and> focusedId s1 = Some (id' (photos ! nat \<lfloor>r1 * real (length photos)\<rfloor>))
       \<and> lastFocusTime s1 = t
       \<and> dismissTimers s1 = dismissTimers st @ [t + 5000]
       \<and> triggerRandomFocus photos r2 (t + 4999) s1 = (Normal, s1)
       \<and> focusedId s2 = None
       \<and> triggerRandomFocus photos r2 (t + 5001) s2 =
           (Normal, s2\<lparr>lastFocusTime := t + 5001,
                        focusedId := Some (id' (photos ! nat \<lfloor>r2 * real (length photos)\<rfloor>)),
                        dismissTimers := dismissTimers s2 @ [t + 10001]\<rparr>)"
proof -
  have acc: "triggerRandomFocus photos r1 t st =
     (Normal, st\<lparr>lastFocusTime := t,
                  focusedId := Some (id' (photos ! nat \<lfloor>r1 * real (length photos)\<rfloor>)),
                  dismissTimers := dismissTimers st @ [t + 5000]\<rparr>)"
    using idle cool ne r1 by (rule trigger_accepted)
  have s1': "s1 = st\<lparr>lastFocusTime := t,
                  focusedId := Some (id' (photos ! nat \<lfloor>r1 * real (length photos)\<rfloor>)),
                  dismissTimers := dismissTimers st @ [t + 5000]\<rparr>"
    by (simp add: s1_def acc)
  have a: "triggerRandomFocus photos r1 t st = (Normal, s1)"
    using acc s1' by simp
  have b: "focusedId s1 = Some (id' (photos ! nat \<lfloor>r1 * real (length photos)\<rfloor>))"
    by (simp add: s1')
  have c: "lastFocusTime s1 = t"
    by (simp add: s1')
  have c': "dismissTimers s1 = dismissTimers st @ [t + 5000]"
    by (simp add: s1')
  have d: "triggerRandomFocus photos r2 (t + 4999) s1 = (Normal, s1)"
    by (rule trigger_rejected) (simp add: c)
  have e: "focusedId s2 = None"
    unfolding s2_def by (rule runTimers_due [of "t + 5000"]) (simp_all add: c')
  have f: "triggerRandomFocus photos r2 (t + 5001) s2 =
      (Normal, s2\<lparr>lastFocusTime := t + 5001,
                   focusedId := Some (id' (photos ! nat \<lfloor>r2 * real (length photos)\<rfloor>)),
                   dismissTimers := dismissTimers s2 @ [t + 5001 + 5000]\<rparr>)"
  proof (rule trigger_accepted)
    show "\<not> truthy (focusedId s2)"
      by (simp add: e)
    show "5000 \<le> t + 5001 - lastFocusTime s2"
      by (simp add: s2_def runTimers_lastFocusTime c)
  qed (simp_all add: ne r2)
  show ?thesis using a b c c' d e f by simp
qed

text \<open>
  On the application's 80 photos from the initial state: photo 40 is focused first, the
  gesture 4999 ms later is ignored, the one 5001 ms later focuses photo 20.
\<close>

theorem cooldown_then_retrigger_witness:
  "triggerRandomFocus SAMPLE_PHOTOS (1/4) (someNow + 4999)
       (snd (triggerRandomFocus SAMPLE_PHOTOS (1/2) someNow initialState))
     = (Normal, snd (triggerRandomFocus SAMPLE_PHOTOS (1/2) someNow initialState)) \<and>
   focusedId (snd (triggerRandomFocus SAMPLE_PHOTOS (1/2) someNow initialState))
     = Some ''photo-40'' \<and>
   focusedId (snd (triggerRandomFocus SAMPLE_PHOTOS (1/4) (someNow + 5001)
       (runTimers (someNow + 5001)
          (snd (triggerRandomFocus SAMPLE_PHOTOS (1/2) someNow initialState)))))
     = Some ''photo-20''"
proof -
  have ne: "SAMPLE_PHOTOS \<noteq> []"
    using length_SAMPLE_PHOTOS by auto
  have idle: "\<not> truthy (focusedId initialState)"
    by (simp add: initialState_def)
  have cool: "5000 \<le> someNow - lastFocusTime initialState"
    by (simp add: initialState_def someNow_def)
  show ?thesis
    using cooldown_then_retrigger [OF idle cool ne, of "1/2" "1/4"]
    by (simp add: length_SAMPLE_PHOTOS SAMPLE_PHOTOS_id decimal_40 decimal_20)
qed

subsection \<open>C5: gestures while an item is focused\<close>

text \<open>
  Claim C5. In every run of the application, a gesture arriving while an item is
  focused (\<open>focusedId\<close> is not none) leaves the entire focus state unchanged:
  \<open>focusedId\<close> keeps its value, no auto-dismiss is scheduled or moved, and
  \<open>lastFocusTime\<close> is not updated, whatever the time of the gesture. The throttle tests
  \<open>focusedId\<close> for truthiness, and the ids that a run can focus are those of
  \<open>SAMPLE_PHOTOS\<close>, none of them empty.
\<close>

theorem focused_run_ignores_trigger:
  assumes "focusedId (run events) \<noteq> None"
  shows "triggerRandomFocus SAMPLE_PHOTOS r now (run events) = (Normal, run events)"
proof -
  obtain i where i: "focusedId (run events) = Some i"
    using assms by auto
  then have "i \<noteq> []"
    using run_focus_nonempty [of events] by auto
  then have "truthy (focusedId (run events))"
    by (simp add: i)
  then show ?thesis
    by (simp add: trigger_rejected)
qed

text \<open>
  After one gesture photo 40 is focused; a second gesture 5000 ms later, when the
  cooldown has elapsed and the auto-dismiss has not run yet, changes nothing.
\<close>

theorem focused_run_ignores_trigger_witness:
  "focusedId (run [Results (1/2) someNow (Some spreadPose)]) = Some ''photo-40'' \<and>
   triggerRandomFocus SAMPLE_PHOTOS (1/4) (someNow + 5000)
       (run [Results (1/2) someNow (Some spreadPose)])
     = (Normal, run [Results (1/2) someNow (Some spreadPose)])"
proof -
  have f: "focusedId (run [Results (1/2) someNow (Some spreadPose)]) = Some ''photo-40''"
    by (simp add: gesture_run)
  then have "focusedId (run [Results (1/2) someNow (Some spreadPose)]) \<noteq> None"
    by simp
  from focused_run_ignores_trigger [OF this] f show ?thesis
    by simp
qed

subsection \<open>C6: teardown and the pending auto-dismiss\<close>




subsection \<open>C7: the sphere layout\<close>

text \<open>
  Claim C7. For every collection, in particular one of 80 items, every position that
  \<open>cardData\<close> computes lies at Euclidean distance 10 from the origin, within
  \<open>10\<^sup>-\<^sup>6\<close> (in exact arithmetic the distance is 10). The layout is a function of the
  number of items alone: two collections of the same size get the same position and
  the same rotation at every index.
\<close>

theorem layout_on_sphere_and_deterministic:
  assumes "length photos = length photos'" "i < length photos"
  shows "\<bar>distanceToOrigin (card.position (cardData lookAtOrigin photos ! i)) - 10\<bar>
           \<le> 1 / 10 ^ 6 \<and>
     card.position (cardData lookAtOrigin photos ! i)
       = card.position (cardData lookAtOrigin photos' ! i) \<and>
     rotation (cardData lookAtOrigin photos ! i) = rotation (cardData lookAtOrigin photos' ! i)"
proof -
  have i': "i < length photos'"
    using assms by simp
  have p: "card.position (cardData lookAtOrigin photos ! i)
       = card.position (cardData lookAtOrigin photos' ! i)"
    by (simp only: cardData_position [OF assms(2)] cardData_position [OF i'] assms(1))
  have r: "rotation (cardData lookAtOrigin photos ! i)
       = rotation (cardData lookAtOrigin photos' ! i)"
    by (simp only: cardData_rotation [OF assms(2)] cardData_rotation [OF i'] p)
  have d: "\<bar>distanceToOrigin (card.position (cardData lookAtOrigin photos ! i)) - 10\<bar>
      \<le> 1 / 10 ^ 6"
    by (simp add: cardData_distance [OF assms(2)])
  show ?thesis using d p r by blast
qed

text \<open>The last of the application's 80 photos, against the same photos in reverse order.\<close>

theorem layout_on_sphere_and_deterministic_witness:
  "length (cardData noRotation SAMPLE_PHOTOS) = 80 \<and>
   \<bar>distanceToOrigin (card.position (cardData noRotation SAMPLE_PHOTOS ! 79)) - 10\<bar>
     \<le> 1 / 10 ^ 6 \<and>
   card.position (cardData noRotation SAMPLE_PHOTOS ! 79)
     = card.position (cardData noRotation (rev SAMPLE_PHOTOS) ! 79) \<and>
   rotation (cardData noRotation SAMPLE_PHOTOS ! 79)
     = rotation (cardData noRotation (rev SAMPLE_PHOTOS) ! 79)"
proof -
  have l: "length SAMPLE_PHOTOS = length (rev SAMPLE_PHOTOS)"
    by simp
  have i: "79 < length SAMPLE_PHOTOS"
    by (simp add: length_SAMPLE_PHOTOS)
  have n: "length (cardData noRotation SAMPLE_PHOTOS) = 80"
    by (simp add: cardData_def length_SAMPLE_PHOTOS)
  show ?thesis
    using layout_on_sphere_and_deterministic [OF l i, of noRotation] n by blast
qed

subsection \<open>C8: the interpolation of a frame\<close>

text \<open>
  Claim C8, as amended. \<open>useFrame\<close> moves the position, the orientation and the scale of
  a card towards a target transform, at the rate \<open>alpha = delta * 3\<close> when the card is
  not focused and \<open>delta * 7\<close> when it is focused; the orientations are unit quaternions.
  For a constant target and a constant frame delta with \<open>0 \<le> delta\<close> and \<open>alpha \<le> 2\<close>,
  in either branch:
  \<^item> after \<open>n\<close> frames each of the three distances to the target (Euclidean for position
    and scale, the angle for the orientation) is exactly \<open>\<bar>1 - alpha\<bar> ^ n\<close> times what
    it was;
  \<^item> so one frame moves none of the three farther from its target (with
    \<open>1 < alpha \<le> 2\<close> it carries them past the target, to a distance that is no larger);
  \<^item> and when \<open>0 < alpha < 2\<close> the three distances converge to \<open>0\<close> under repetition
    (with \<open>alpha = 2\<close> they stay what they are).

  For every delta, a transform that is at its target is left unchanged by a frame.
\<close>

theorem interpolation_step:
  assumes "0 \<le> delta"
    and "normalized (quaternion m)" "normalized targetQuat" "normalized localFocusQuat"
  shows
    "(delta * 3 \<le> 2 \<longrightarrow>
        distances ((useFrame targetPos targetQuat False localFocus delta ^^ n) m)
            (targetPos, targetQuat, (1, 1, 1))
          = scaled (\<bar>1 - delta * 3\<bar> ^ n) (distances m (targetPos, targetQuat, (1, 1, 1))) \<and>
        noFarther
          (distances (useFrame targetPos targetQuat False localFocus delta m)
             (targetPos, targetQuat, (1, 1, 1)))
          (distances m (targetPos, targetQuat, (1, 1, 1))) \<and>
        (0 < delta \<and> delta * 3 < 2 \<longrightarrow>
           (\<lambda>k. distances ((useFrame targetPos targetQuat False localFocus delta ^^ k) m)
                   (targetPos, targetQuat, (1, 1, 1))) \<longlonglongrightarrow> (0, 0, 0))) \<and>
     (delta * 7 \<le> 2 \<longrightarrow>
        distances
            ((useFrame targetPos targetQuat True (Some (localFocusPos, localFocusQuat)) delta ^^ n) m)
            (localFocusPos, localFocusQuat, (4.5, 4.5, 1))
          = scaled (\<bar>1 - delta * 7\<bar> ^ n)
              (distances m (localFocusPos, localFocusQuat, (4.5, 4.5, 1))) \<and>
        noFarther
          (distances
             (useFrame targetPos targetQuat True (Some (localFocusPos, localFocusQuat)) delta m)
             (localFocusPos, localFocusQuat, (4.5, 4.5, 1)))
          (distances m (localFocusPos, localFocusQuat, (4.5, 4.5, 1))) \<and>
        (0 < delta \<and> delta * 7 < 2 \<longrightarrow>
           (\<lambda>k. distances
                   ((useFrame targetPos targetQuat True (Some (localFocusPos, localFocusQuat)) delta
                       ^^ k) m)
                   (localFocusPos, localFocusQuat, (4.5, 4.5, 1))) \<longlonglongrightarrow> (0, 0, 0))) \<and>
     (position m = targetPos \<and> quaternion m = targetQuat \<and> scale m = (1, 1, 1) \<longrightarrow>
        useFrame targetPos targetQuat False localFocus delta m = m) \<and>
     (position m = localFocusPos \<and> quaternion m = localFocusQuat \<and> scale m = (4.5, 4.5, 1) \<longrightarrow>
        useFrame targetPos targetQuat True (Some (localFocusPos, localFocusQuat)) delta m = m)"
proof -
  let ?U = "useFrame targetPos targetQuat False localFocus delta"
  let ?F = "useFrame targetPos targetQuat True (Some (localFocusPos, localFocusQuat)) delta"
  let ?T = "(targetPos, targetQuat, (1, 1, 1) :: vec3)"
  let ?L = "(localFocusPos, localFocusQuat, (4.5, 4.5, 1) :: vec3)"
  have u: "distances ((?U ^^ n) m) ?T = scaled (\<bar>1 - delta * 3\<bar> ^ n) (distances m ?T) \<and>
      noFarther (distances (?U m) ?T) (distances m ?T) \<and>
      (0 < delta \<and> delta * 3 < 2 \<longrightarrow> (\<lambda>k. distances ((?U ^^ k) m) ?T) \<longlonglongrightarrow> (0, 0, 0))"
    if b: "delta * 3 \<le> 2"
  proof -
    have it: "distances ((?U ^^ k) m) ?T = scaled (\<bar>1 - delta * 3\<bar> ^ k) (distances m ?T)" for k
      using assms(1) b assms(2,3) by (rule iterate_unfocused)
    have k1: "\<bar>1 - delta * 3\<bar> \<le> 1" using assms(1) b by simp
    have nf: "noFarther (distances (?U m) ?T) (distances m ?T)"
      using it [of 1] noFarther_scaled [of "\<bar>1 - delta * 3\<bar>" m ?T] k1 by simp
    have lim: "(\<lambda>k. distances ((?U ^^ k) m) ?T) \<longlonglongrightarrow> (0, 0, 0)"
      if "0 < delta \<and> delta * 3 < 2"
    proof -
      have "\<bar>1 - delta * 3\<bar> < 1" using that by (auto simp: abs_less_iff)
      then show ?thesis unfolding it by (intro scaled_power_tendsto) simp_all
    qed
    show ?thesis using it [of n] nf lim by blast
  qed
  have f: "distances ((?F ^^ n) m) ?L = scaled (\<bar>1 - delta * 7\<bar> ^ n) (distances m ?L) \<and>
      noFarther (distances (?F m) ?L) (distances m ?L) \<and>
      (0 < delta \<and> delta * 7 < 2 \<longrightarrow> (\<lambda>k. distances ((?F ^^ k) m) ?L) \<longlonglongrightarrow> (0, 0, 0))"
    if b: "delta * 7 \<le> 2"
  proof -
    have it: "distances ((?F ^^ k) m) ?L = scaled (\<bar>1 - delta * 7\<bar> ^ k) (distances m ?L)" for k
      using assms(1) b assms(2,4) by (rule iterate_focused)
    have k1: "\<bar>1 - delta * 7\<bar> \<le> 1" using assms(1) b by simp
    have nf: "noFarther (distances (?F m) ?L) (distances m ?L)"
      using it [of 1] noFarther_scaled [of "\<bar>1 - delta * 7\<bar>" m ?L] k1 by simp
    have lim: "(\<lambda>k. distances ((?F ^^ k) m) ?L) \<longlonglongrightarrow> (0, 0, 0)"
      if "0 < delta \<and> delta * 7 < 2"
    proof -
      have "\<bar>1 - delta * 7\<bar> < 1" using that by (auto simp: abs_less_iff)
      then show ?thesis unfolding it by (intro scaled_power_tendsto) simp_all
    qed
    show ?thesis using it [of n] nf lim by blast
  qed
  have i1: "position m = targetPos \<and> quaternion m = targetQuat \<and> scale m = (1, 1, 1) \<longrightarrow> ?U m = m"
    using assms(3) by (auto intro: at_target_unfocused)
  have i2: "position m = localFocusPos \<and> quaternion m = localFocusQuat \<and> scale m = (4.5, 4.5, 1)
      \<longrightarrow> ?F m = m"
    using assms(4) by (auto intro: at_target_focused)
  show ?thesis
    using u f i1 i2 by blast
qed

text \<open>
  A card at rest, half a turn away from both of its targets, at 14 frames per unit of
  time: after two focused frames every distance is a quarter of what it was.
\<close>

theorem interpolation_step_witness:
  "distances
      ((useFrame (1, 0, 0) (0, 0, 1, 0) True (Some ((0, 0, 2), (0, 1, 0, 0))) (1/14) ^^ 2) restMesh)
      ((0, 0, 2), (0, 1, 0, 0), (4.5, 4.5, 1))
     = scaled (1/4) (distances restMesh ((0, 0, 2), (0, 1, 0, 0), (4.5, 4.5, 1))) \<and>
   distanceTo (position restMesh) (0, 0, 2) = 2 \<and>
   angleTo (quaternion restMesh) (0, 1, 0, 0) = pi \<and>
   distances ((useFrame (1, 0, 0) (0, 0, 1, 0) False None (1/14) ^^ 2) restMesh)
      ((1, 0, 0), (0, 0, 1, 0), (1, 1, 1))
     = scaled ((11/14)\<^sup>2) (distances restMesh ((1, 0, 0), (0, 0, 1, 0), (1, 1, 1))) \<and>
   noFarther
     (distances (useFrame (1, 0, 0) (0, 0, 1, 0) False None (1/14) restMesh)
        ((1, 0, 0), (0, 0, 1, 0), (1, 1, 1)))
     (distances restMesh ((1, 0, 0), (0, 0, 1, 0), (1, 1, 1)))"
proof -
  have d: "(0::real) \<le> 1/14" by simp
  have t: "normalized (0, 0, 1, 0)" by (simp add: normalized_def dot_def)
  have l: "normalized (0, 1, 0, 0)" by (simp add: normalized_def dot_def)
  have p: "distanceTo (position restMesh) (0, 0, 2) = 2"
    by (simp add: restMesh_def distanceTo_def)
  have a: "angleTo (quaternion restMesh) (0, 1, 0, 0) = pi"
    by (simp add: restMesh_def angleTo_def dot_def)
  show ?thesis
    using interpolation_step [OF d restMesh_normalized t l, where targetPos = "(1, 0, 0)"
        and localFocus = None and n = 2 and localFocusPos = "(0, 0, 2)"] p a
    by (simp add: power2_eq_square)
qed

text \<open>
  The claim without the bound on the frame delta: one unfocused frame with \<open>delta = 1\<close>
  takes the position from distance \<open>1\<close> to distance \<open>2\<close> from its target.
\<close>

theorem slow_frame_counterexample:
  "(0::real) \<le> 1 \<and> normalized (quaternion restMesh) \<and> normalized (0, 0, 0, 1) \<and>
   \<not> noFarther
       (distances (useFrame (1, 0, 0) (0, 0, 0, 1) False None 1 restMesh)
          ((1, 0, 0), (0, 0, 0, 1), (1, 1, 1)))
       (distances restMesh ((1, 0, 0), (0, 0, 0, 1), (1, 1, 1)))"
proof -
  have d: "distanceTo (position restMesh) (1, 0, 0) = 1"
    by (simp add: restMesh_def distanceTo_def)
  have "distanceTo (position (useFrame (1, 0, 0) (0, 0, 0, 1) False None 1 restMesh)) (1, 0, 0) = 2"
    by (simp add: unfocused_fields distanceTo_lerp d)
  then show ?thesis
    using d restMesh_normalized
    by (simp add: distances_def noFarther_def normalized_def dot_def)
qed

subsection \<open>C9: the pose signal\<close>

text \<open>
  Claim C9 says that every non-empty landmark set produces a signal made of the centre
  offset, the classifier's result and the score. On the 33 slots of which only the
  shoulders hold a landmark, the set is not empty and \<open>getCenterOffset\<close> skips the
  absent entries, but \<open>detectArmsSpread\<close> reads \<open>.x\<close> of the absent left wrist:
  \<open>onResults\<close> ends with a TypeError before \<open>setPose\<close>, and no signal is produced.
\<close>

theorem sparse_landmarks_throw:
  "shouldersOnly \<noteq> [] \<and>
   getCenterOffset (Some shouldersOnly) = \<lparr>x = 0, y = 0\<rparr> \<and>
   detectArmsSpread (Some shouldersOnly) = Inl TypeError \<and>
   onResults SAMPLE_PHOTOS (1/2) someNow (Some shouldersOnly) initialState
     = (Throw TypeError, initialState)"
  by (simp add: onResults_def detectArmsSpread_def getCenterOffset_def relevantIndices_def
      shouldersOnly_def entryAt_def landmarkAt_def)

subsection \<open>C10: what the classifier reads\<close>

text \<open>
  Claim C10. \<open>detectArmsSpread\<close> depends only on the length of the array and on the
  entries 11, 12, 15 and 16: two arrays of the same length, at least 17, that agree at
  these four indices give the same outcome, whatever their other entries are. The
  outcome is a boolean exactly when the four entries are present, and the same
  exception in both calls otherwise.
\<close>

theorem detect_reads_four_entries:
  assumes "length a = length b" "17 \<le> length a"
    and "a ! 11 = b ! 11" "a ! 12 = b ! 12" "a ! 15 = b ! 15" "a ! 16 = b ! 16"
  shows "detectArmsSpread (Some a) = detectArmsSpread (Some b) \<and>
     ((\<exists>v. detectArmsSpread (Some a) = Inr v) =
        (a ! 11 \<noteq> None \<and> a ! 12 \<noteq> None \<and> a ! 15 \<noteq> None \<and> a ! 16 \<noteq> None))"
proof -
  have same: "detectArmsSpread (Some a) = detectArmsSpread (Some b)"
    using assms by (simp add: detectArmsSpread_def entryAt_def)
  have returns: "(\<exists>v. detectArmsSpread (Some a) = Inr v) =
      (a ! 11 \<noteq> None \<and> a ! 12 \<noteq> None \<and> a ! 15 \<noteq> None \<and> a ! 16 \<noteq> None)"
    using assms(2) by (auto simp add: detectArmsSpread_def entryAt_def split: option.splits)
  show ?thesis using same returns by (rule conjI)
qed

text \<open>Two arrays that differ at the indices 0 and 1, among others.\<close>

theorem detect_reads_four_entries_witness:
  "lowArmsPose ! 0 \<noteq> lowArmsPose' ! 0 \<and> lowArmsPose ! 1 \<noteq> lowArmsPose' ! 1 \<and>
   detectArmsSpread (Some lowArmsPose) = detectArmsSpread (Some lowArmsPose') \<and>
   detectArmsSpread (Some lowArmsPose') = Inr False"
  using detect_reads_four_entries [of lowArmsPose lowArmsPose'] lowArms_result
  by (simp add: lowArmsPose_def lowArmsPose'_def landmarkAt_def)

end
